theory Spec2Isabelle
  imports Complex_Main "HOL-Library.Sublist"
begin

section \<open>GraphCDN: the caching decision pipeline of the GraphQL route\<close>

text \<open>
  The development embeds \<^verbatim>\<open>src/utils.ts\<close> (header policy) and the handler
  \<^verbatim>\<open>graphql\<close> of \<^verbatim>\<open>src/routes/graphql.ts\<close>.

  JavaScript strings are \<^typ>\<open>string\<close>. A Number that \<^verbatim>\<open>parseInt\<close> returns (the
  \<^verbatim>\<open>max-age\<close>, the default TTL) is a \<open>js_number\<close>: an integer-valued double, an
  infinity or \<^verbatim>\<open>NaN\<close>, with the rounding of \<^verbatim>\<open>parseInt\<close> and the text of
  \<^verbatim>\<open>Number.prototype.toString\<close> written out. Timestamps in milliseconds and the
  TTL in a cache entry's metadata are \<^typ>\<open>int\<close>.
  A thrown exception or a rejected promise is the \<open>Inl\<close> of a sum type. The
  collaborators the handler imports (GraphQL parser, schema store, query cache,
  digest, origin transport) are fields of an environment record; every call to the
  digest, the cache store, the origin and the console is recorded, in order, in a
  trace that the handler returns next to its outcome.
\<close>

subsection \<open>Strings\<close>

definition is_digit :: "char \<Rightarrow> bool" where
  \<comment> \<open>the class \<^verbatim>\<open>\d\<close> of a regular expression without the unicode flag\<close>
  "is_digit c = (c \<in> set ''0123456789'')"

definition digit_val :: "char \<Rightarrow> nat" where
  "digit_val c = (of_char c :: nat) - 48"

definition digits_value :: "string \<Rightarrow> int" where
  \<comment> \<open>the mathematical integer that a string of decimal digits denotes\<close>
  "digits_value ds = foldl (\<lambda>acc c. 10 * acc + int (digit_val c)) 0 ds"

subsection \<open>Numbers\<close>

text \<open>
  A Number value as far as this program meets one: \<open>Finite i\<close> for a double whose
  value is the integer \<open>i\<close>, the two infinities and \<^verbatim>\<open>NaN\<close>.
\<close>

datatype js_number = Finite int | PosInfinity | NegInfinity | NaN

fun bit_length :: "nat \<Rightarrow> nat" where
  "bit_length n = (if n = 0 then 0 else Suc (bit_length (n div 2)))"

declare bit_length.simps [simp del]

text \<open>
  The double nearest to a natural number, ties to the even significand: below
  \<open>2^53\<close> the number itself; from there on the leading 53 bits \<open>q\<close> are kept and the
  \<open>e\<close> bits \<open>r\<close> below them are rounded away. \<open>None\<close> is the overflow to infinity
  (the rounded value reaches \<open>2^1024\<close>).
\<close>

definition round_nat :: "nat \<Rightarrow> nat option" where
  "round_nat n =
     (if n < 2 ^ 53 then Some n
      else let e = bit_length n - 53;
               q = n div 2 ^ e;
               r = n mod 2 ^ e;
               half = 2 ^ (e - 1);
               q' = (if half < r \<or> (r = half \<and> odd q) then q + 1 else q);
               v = q' * 2 ^ e
           in if 971 < e \<or> (e = 971 \<and> q' = 2 ^ 53) then None else Some v)"

definition to_number :: "int \<Rightarrow> js_number" where
  \<comment> \<open>the Number value of a mathematical integer\<close>
  "to_number i =
     (case round_nat (nat \<bar>i\<bar>) of
        Some v \<Rightarrow> Finite (if i < 0 then - int v else int v)
      | None \<Rightarrow> if i < 0 then NegInfinity else PosInfinity)"

definition parseInt_digits :: "string \<Rightarrow> js_number" where
  \<comment> \<open>\<^verbatim>\<open>parseInt\<close> on a string of decimal digits: the Number value of the integer
      written, correctly rounded as the engines do (the language lets an engine read
      the digits after the 20th as zeros)\<close>
  "parseInt_digits ds = to_number (digits_value ds)"

fun js_gt :: "js_number \<Rightarrow> js_number \<Rightarrow> bool" where
  \<comment> \<open>the operator \<^verbatim>\<open>>\<close> on two Numbers\<close>
  "js_gt NaN y = False"
| "js_gt x NaN = False"
| "js_gt (Finite a) (Finite b) = (a > b)"
| "js_gt PosInfinity PosInfinity = False"
| "js_gt PosInfinity y = True"
| "js_gt x PosInfinity = False"
| "js_gt NegInfinity y = False"
| "js_gt x NegInfinity = True"

fun digits_of_nat :: "nat \<Rightarrow> string" where
  "digits_of_nat n =
     (if n < 10 then [''0123456789'' ! n]
      else digits_of_nat (n div 10) @ [''0123456789'' ! (n mod 10)])"

declare digits_of_nat.simps [simp del]

fun num_digits :: "nat \<Rightarrow> nat" where
  "num_digits n = (if n < 10 then 1 else 1 + num_digits (n div 10))"

declare num_digits.simps [simp del]

fun zeros :: "nat \<Rightarrow> string" where
  "zeros n = (if n = 0 then [] else CHR ''0'' # zeros (n - 1))"

declare zeros.simps [simp del]

text \<open>
  \<^verbatim>\<open>Number::toString\<close> in radix 10 on a positive integer-valued double \<open>x\<close> chooses
  integers \<open>n\<close>, \<open>k\<close> and \<open>s\<close> with \<open>k\<close> digits in \<open>s\<close>, such that \<open>s * 10^(n - k)\<close> has
  the Number value \<open>x\<close>, with \<open>k\<close> as small as possible and then \<open>s * 10^(n - k)\<close> as
  close to \<open>x\<close> as possible (the even \<open>s\<close> of two). \<open>candidate x d k\<close> is that \<open>s\<close> for
  \<open>n = d\<close>, the number of digits of \<open>x\<close>, if there is one: only the two multiples of
  \<open>10^(d - k)\<close> around \<open>x\<close> can be closest. \<open>shortest\<close> tries \<open>k = 1, 2, ...\<close>; 17 digits
  always identify a double.
\<close>

definition candidate :: "nat \<Rightarrow> nat \<Rightarrow> nat \<Rightarrow> nat option" where
  "candidate x d k =
     (let p = 10 ^ (d - k);
          s0 = x div p;
          lo = s0 * p;
          hi = (s0 + 1) * p;
          ok_lo = (round_nat lo = Some x);
          ok_hi = (s0 + 1 < 10 ^ k \<and> round_nat hi = Some x)
      in if ok_lo \<and> ok_hi
         then (if x - lo < hi - x then Some s0
               else if hi - x < x - lo then Some (s0 + 1)
               else if even s0 then Some s0 else Some (s0 + 1))
         else if ok_lo then Some s0
         else if ok_hi then Some (s0 + 1)
         else None)"

function shortest :: "nat \<Rightarrow> nat \<Rightarrow> nat \<Rightarrow> nat option" where
  "shortest x d k =
     (if d < k \<or> 17 < k then None
      else (case candidate x d k of
              Some s \<Rightarrow> Some s
            | None \<Rightarrow> shortest x d (k + 1)))"
  by pat_completeness auto
termination
  by (relation "measure (\<lambda>(x, d, k). 18 - k)") auto

declare shortest.simps [simp del]

text \<open>
  The text for the digits \<open>s\<close> and the position \<open>n\<close>: the digits and then zeros up to
  \<open>n\<close> digits when \<open>n \<le> 21\<close>, the exponent form otherwise.
\<close>

definition format_digits :: "nat \<Rightarrow> nat \<Rightarrow> string" where
  "format_digits s n =
     (if n \<le> 21 then digits_of_nat s @ zeros (n - num_digits s)
      else (case digits_of_nat s of
              [] \<Rightarrow> []
            | c # cs \<Rightarrow> (if cs = [] then [c] else c # CHR ''.'' # cs)
                        @ ''e+'' @ digits_of_nat (n - 1)))"

text \<open>
  Up to \<open>2^53\<close> every integer is a double and so are its neighbours: no other integer
  has the Number value \<open>x\<close>, and the text is the decimal numeral of \<open>x\<close>. Beyond, the
  power of ten above \<open>x\<close> is tried first (it can round down to \<open>x\<close>, as \<open>10^23\<close> does),
  then the shortest digits at the length of \<open>x\<close>. The last case stands for an \<open>x\<close>
  that 17 digits do not identify, which a double is not.
\<close>

definition print_nat :: "nat \<Rightarrow> string" where
  "print_nat x =
     (if x \<le> 2 ^ 53 then digits_of_nat x
      else let d = num_digits x
           in if round_nat (10 ^ d) = Some x then format_digits 1 (d + 1)
              else (case shortest x d 1 of
                      Some s \<Rightarrow> format_digits s d
                    | None \<Rightarrow> format_digits x d))"

fun Number_toString :: "js_number \<Rightarrow> string" where
  \<comment> \<open>\<^verbatim>\<open>Number.prototype.toString\<close> and the interpolation of a Number in a template\<close>
  "Number_toString NaN = ''NaN''"
| "Number_toString PosInfinity = ''Infinity''"
| "Number_toString NegInfinity = ''-Infinity''"
| "Number_toString (Finite i) =
     (if i < 0 then CHR ''-'' # print_nat (nat (- i)) else print_nat (nat i))"

definition toString :: "int \<Rightarrow> string" where
  \<comment> \<open>\<^verbatim>\<open>toString\<close> of the Number that an integer computed by the program is\<close>
  "toString i = Number_toString (to_number i)"

subsection \<open>Words in strings\<close>

definition to_lower :: "char \<Rightarrow> char" where
  \<comment> \<open>case folding of the \<^verbatim>\<open>i\<close> flag, which for an ASCII pattern touches ASCII letters only\<close>
  "to_lower c =
     (case map_of (zip ''ABCDEFGHIJKLMNOPQRSTUVWXYZ'' ''abcdefghijklmnopqrstuvwxyz'') c of
        Some l \<Rightarrow> l
      | None \<Rightarrow> c)"

fun str_includes :: "string \<Rightarrow> string \<Rightarrow> bool" where
  \<comment> \<open>\<^verbatim>\<open>s.includes(w)\<close>, and an unanchored test of the literal \<open>w\<close>\<close>
  "str_includes [] w = (w = [])"
| "str_includes (c # cs) w = (prefix w (c # cs) \<or> str_includes cs w)"

fun split_on :: "char \<Rightarrow> string \<Rightarrow> string list" where
  \<comment> \<open>\<^verbatim>\<open>s.split(c)\<close> for a one-character separator\<close>
  "split_on sep [] = [[]]"
| "split_on sep (c # cs) =
     (if c = sep then [] # split_on sep cs
      else (case split_on sep cs of
              w # ws \<Rightarrow> (c # w) # ws
            | [] \<Rightarrow> [[c]]))"

subsection \<open>\<^verbatim>\<open>src/utils.ts\<close>\<close>

text \<open>The members of the enums \<^verbatim>\<open>Headers\<close> and \<^verbatim>\<open>CacheHitHeader\<close> are their string values.\<close>

abbreviation Headers_gcdnCache :: string where "Headers_gcdnCache \<equiv> ''gcdn-cache''"
abbreviation Headers_contentType :: string where "Headers_contentType \<equiv> ''content-type''"
abbreviation Headers_cacheControl :: string where "Headers_cacheControl \<equiv> ''cache-control''"
abbreviation Headers_date :: string where "Headers_date \<equiv> ''date''"
abbreviation Headers_age :: string where "Headers_age \<equiv> ''age''"
abbreviation Headers_xCache :: string where "Headers_xCache \<equiv> ''x-cache''"
abbreviation Headers_authorization :: string where "Headers_authorization \<equiv> ''authorization''"
abbreviation Headers_accessControlMaxAge :: string where
  "Headers_accessControlMaxAge \<equiv> ''access-control-max-age''"

abbreviation CacheHitHeader_MISS :: string where "CacheHitHeader_MISS \<equiv> ''MISS''"
abbreviation CacheHitHeader_HIT :: string where "CacheHitHeader_HIT \<equiv> ''HIT''"
abbreviation CacheHitHeader_PASS :: string where "CacheHitHeader_PASS \<equiv> ''PASS''"
abbreviation CacheHitHeader_ERROR :: string where "CacheHitHeader_ERROR \<equiv> ''ERROR''"

fun match_max_age :: "string \<Rightarrow> string option" where
  \<comment> \<open>\<^verbatim>\<open>header.match(/max-age=(\d+)/)\<close>: the first capture group of the leftmost
      match, \<open>None\<close> for \<^verbatim>\<open>null\<close>\<close>
  "match_max_age [] = None"
| "match_max_age (c # cs) =
     (if prefix ''max-age='' (c # cs) \<and> takeWhile is_digit (drop 8 (c # cs)) \<noteq> []
      then Some (takeWhile is_digit (drop 8 (c # cs)))
      else match_max_age cs)"

definition parseMaxAge :: "string \<Rightarrow> js_number" where
  "parseMaxAge header =
     (case match_max_age header of
        Some ds \<Rightarrow> parseInt_digits ds
      | None \<Rightarrow> Finite (- 1))"

type_synonym header_map = "string \<rightharpoonup> string"

text \<open>
  An HTTP response: header names are lower-case, as a \<^verbatim>\<open>Headers\<close> object keeps them.
  The body is a parameter: what \<^verbatim>\<open>response.json()\<close> resolves to for a response
  fetched from the origin, the payload for a response the handler sends.
\<close>

record 'b response =
  status :: nat
  headers :: header_map
  body :: 'b

definition get_or_empty :: "header_map \<Rightarrow> string \<Rightarrow> string" where
  \<comment> \<open>\<^verbatim>\<open>headers.get(name) || ''\<close>\<close>
  "get_or_empty h name = (case h name of Some v \<Rightarrow> v | None \<Rightarrow> [])"

definition isResponseCachable :: "'b response \<Rightarrow> bool" where
  "isResponseCachable res =
     (if status res = 206 then False
      else let vary = get_or_empty (headers res) ''vary'' in
        if CHR ''*'' \<in> set vary then False
        else let ccontrol = get_or_empty (headers res) Headers_cacheControl in
          if str_includes (map to_lower ccontrol) ''no-cache''
             \<or> str_includes (map to_lower ccontrol) ''no-store'' then False
          else True)"

subsection \<open>Values, collaborators and effects of the handler\<close>

datatype js_error = Error string

text \<open>A decoded JSON value as far as the handler looks at it: its kind and its truthiness.\<close>

datatype js_value = JUndefined | JNull | JBool bool | JNum int | JStr string | JObject

fun truthy :: "js_value \<Rightarrow> bool" where
  "truthy JUndefined = False"
| "truthy JNull = False"
| "truthy (JBool b) = b"
| "truthy (JNum n) = (n \<noteq> 0)"
| "truthy (JStr s) = (s \<noteq> [])"
| "truthy JObject = True"

text \<open>The cache store's value \<^verbatim>\<open>{ headers, body }\<close> and its metadata.\<close>

record cached_entry =
  cached_headers :: header_map
  cached_body :: string

record metadata =
  createdAt :: int
  expirationTtl :: int

text \<open>What a handler sends: an \<^verbatim>\<open>{ error: message }\<close> object, a caught error, or JSON text.\<close>

datatype sent_body = ErrorMessage string | ThrownError js_error | Text string

text \<open>
  The request as the handler reads it: \<^verbatim>\<open>(await req.body.json()).query\<close>, which is
  \<open>JUndefined\<close> for an object without the field and \<open>Inl\<close> when decoding or the
  property access throws, and the \<^verbatim>\<open>authorization\<close> header.
\<close>

record request =
  originalBody_query :: "js_error + js_value"
  authorization :: "string option"

text \<open>
  The build-time constants and the imported functions. \<open>defaultMaxAgeInSeconds\<close> is
  \<^verbatim>\<open>parseInt(DEFAULT_TTL)\<close>, whatever Number that is (\<^verbatim>\<open>NaN\<close> for a text without
  digits). \<open>fetch\<close> is the outcome of the one call the handler
  makes to the origin, \<open>stringify\<close> is \<^verbatim>\<open>JSON.stringify\<close> on the decoded origin
  result. \<open>now_date\<close> and \<open>now_age\<close> are the two readings of \<^verbatim>\<open>Date.now()\<close>.
  \<open>spread_status\<close> is the \<^verbatim>\<open>status\<close> that \<^verbatim>\<open>...response\<close> copies into the
  init object of \<^verbatim>\<open>new Response\<close>: \<open>None\<close> where a \<^verbatim>\<open>Response\<close> has no own
  enumerable properties (the constructor then takes 200).
\<close>

record ('doc, 'schema, 'json) env =
  GRAPHQL_URL :: string
  defaultMaxAgeInSeconds :: js_number
  PRIVATE_TYPES :: string
  parse :: "js_value \<Rightarrow> js_error + 'doc"
  latest :: "js_error + 'schema option"
  hasIntersectedTypes :: "'schema \<Rightarrow> 'doc \<Rightarrow> string list \<Rightarrow> js_error + bool"
  normalizeDocument :: "js_value \<Rightarrow> js_error + string"
  isMutation :: "'doc \<Rightarrow> js_error + bool"
  SHA256 :: "string \<Rightarrow> string"
  find_cache :: "string \<Rightarrow> js_error + (cached_entry option \<times> metadata option)"
  save :: "string \<Rightarrow> cached_entry \<Rightarrow> js_number \<Rightarrow> js_error + bool"
  fetch :: "js_error + (js_error + 'json) response"
  stringify :: "'json \<Rightarrow> string"
  now_date :: int
  toUTCString :: "int \<Rightarrow> string"
  now_age :: int
  spread_status :: "nat option"

text \<open>The calls that leave the handler, in the order they are made.\<close>

datatype event =
    Hash string
  | Find string
  | Fetch
  | Save string cached_entry js_number
  | ConsoleError string

fun is_find :: "event \<Rightarrow> bool" where
  "is_find (Find k) = True"
| "is_find _ = False"

fun is_save :: "event \<Rightarrow> bool" where
  "is_save (Save k e t) = True"
| "is_save _ = False"

fun is_hash :: "event \<Rightarrow> bool" where
  "is_hash (Hash s) = True"
| "is_hash _ = False"

fun store_keys :: "event list \<Rightarrow> string list" where
  \<comment> \<open>the keys the cache store is read or written with\<close>
  "store_keys [] = []"
| "store_keys (Find k # evs) = k # store_keys evs"
| "store_keys (Save k e t # evs) = k # store_keys evs"
| "store_keys (_ # evs) = store_keys evs"

subsection \<open>\<^verbatim>\<open>src/routes/graphql.ts\<close>\<close>

definition privateTypes :: "('doc, 'schema, 'json) env \<Rightarrow> string list" where
  "privateTypes env = split_on CHR '','' (PRIVATE_TYPES env)"

definition send :: "nat \<Rightarrow> sent_body \<Rightarrow> header_map \<Rightarrow> sent_body response" where
  \<comment> \<open>\<^verbatim>\<open>res.send(code, data, headers)\<close>: the status, the payload and the headers
      the handler passes\<close>
  "send code data hdrs = \<lparr>status = code, headers = hdrs, body = data\<rparr>"

definition defaultResponseHeaders :: "('doc, 'schema, 'json) env \<Rightarrow> header_map" where
  "defaultResponseHeaders env =
     [Headers_contentType \<mapsto> ''application/json'',
      Headers_date \<mapsto> toUTCString env (now_date env),
      Headers_accessControlMaxAge \<mapsto> ''300'',
      Headers_xCache \<mapsto> CacheHitHeader_MISS,
      Headers_gcdnCache \<mapsto> CacheHitHeader_MISS]"

text \<open>
  The \<^verbatim>\<open>try\<close> block (lines 48 to 60): the result is
  \<open>(hasPrivateTypes, content, isMutationRequest)\<close>, or the error caught.
\<close>

definition classify ::
  "('doc, 'schema, 'json) env \<Rightarrow> js_value \<Rightarrow> 'doc \<Rightarrow> js_error + (bool \<times> string \<times> bool)" where
  "classify env query queryDocumentNode =
     (case latest env of
        Inl error \<Rightarrow> Inl error
      | Inr schema \<Rightarrow>
          (case (case schema of
                   Some sch \<Rightarrow>
                     if length (privateTypes env) > 0
                     then hasIntersectedTypes env sch queryDocumentNode (privateTypes env)
                     else Inr False
                 | None \<Rightarrow> Inr False) of
             Inl error \<Rightarrow> Inl error
           | Inr hasPrivateTypes \<Rightarrow>
               (case normalizeDocument env query of
                  Inl error \<Rightarrow> Inl error
                | Inr content \<Rightarrow>
                    (case isMutation env queryDocumentNode of
                       Inl error \<Rightarrow> Inl error
                     | Inr isMutationRequest \<Rightarrow>
                         Inr (hasPrivateTypes, content, isMutationRequest)))))"

text \<open>Lines 73 to 83: the digest calls made and the signature.\<close>

definition querySignature ::
  "('doc, 'schema, 'json) env \<Rightarrow> string \<Rightarrow> string \<Rightarrow> bool \<Rightarrow> bool \<Rightarrow> event list \<times> string" where
  "querySignature env authHeader content isPrivateAndCacheable isMutationRequest =
     (if isPrivateAndCacheable
      then ([Hash (authHeader @ content)], SHA256 env (authHeader @ content))
      else if isMutationRequest = False
      then ([Hash content], SHA256 env content)
      else ([], []))"

definition round_div_1000 :: "int \<Rightarrow> int" where
  \<comment> \<open>\<^verbatim>\<open>Math.round(ms / 1000)\<close>: halves go up\<close>
  "round_div_1000 ms = (ms + 500) div 1000"

text \<open>Lines 92 to 113: the response served from a cached entry.\<close>

definition hitResponse ::
  "('doc, 'schema, 'json) env \<Rightarrow> cached_entry \<Rightarrow> metadata option \<Rightarrow> sent_body response" where
  "hitResponse env val meta =
     (let res = \<lparr>status = 200,
                 headers = cached_headers val ++ defaultResponseHeaders env,
                 body = Text (cached_body val)\<rparr>;
          res = (case meta of
                   Some m \<Rightarrow>
                     (let age = round_div_1000 (now_age env - createdAt m)
                      in res\<lparr>headers := (headers res)
                           (Headers_age \<mapsto>
                              toString (if age > expirationTtl m then expirationTtl m else age))\<rparr>)
                 | None \<Rightarrow> res);
          res = res\<lparr>headers := (headers res)(Headers_gcdnCache \<mapsto> CacheHitHeader_HIT)\<rparr>;
          res = res\<lparr>headers := (headers res)(Headers_xCache \<mapsto> CacheHitHeader_HIT)\<rparr>
      in res)"

text \<open>Lines 138 to 142: the TTL of a stored response.\<close>

definition chooseMaxAge :: "('doc, 'schema, 'json) env \<Rightarrow> string option \<Rightarrow> js_number" where
  "chooseMaxAge env maxAgeHeaderValue =
     (case maxAgeHeaderValue of
        None \<Rightarrow> defaultMaxAgeInSeconds env
      | Some v \<Rightarrow>
          if v = [] then defaultMaxAgeInSeconds env
          else (let parsedMaxAge = parseMaxAge v
                in if js_gt parsedMaxAge (Finite (- 1)) then parsedMaxAge
                   else defaultMaxAgeInSeconds env))"

definition constructed_status :: "('doc, 'schema, 'json) env \<Rightarrow> nat" where
  \<comment> \<open>the status of \<^verbatim>\<open>new Response(results, { ...response, headers })\<close>\<close>
  "constructed_status env = (case spread_status env of Some st \<Rightarrow> st | None \<Rightarrow> 200)"

text \<open>
  Lines 120 to 206: the request goes to the origin. Spreading the \<^verbatim>\<open>Headers\<close> object
  of the origin response copies nothing (a \<^verbatim>\<open>Headers\<close> object keeps its entries
  in no own property), so the headers of the new response start as the default ones.
\<close>

definition refresh ::
  "('doc, 'schema, 'json) env \<Rightarrow> string \<Rightarrow> bool \<Rightarrow> bool
     \<Rightarrow> event list \<times> (js_error + sent_body response)" where
  \<open>refresh env querySig isPrivateAndCacheable isMutationRequest =
     (case fetch env of
        Inl error \<Rightarrow> ([Fetch], Inl error)
      | Inr response \<Rightarrow>
          (let isCacheable =
                 ((isMutationRequest = False \<and> isResponseCachable response)
                  \<or> isPrivateAndCacheable);
               contentType = headers response Headers_contentType
           in if (case contentType of
                    Some ct \<Rightarrow> str_includes ct ''application/json''
                  | None \<Rightarrow> False)
              then
                (case body response of
                   Inl error \<Rightarrow> ([Fetch], Inl error)
                 | Inr originResult \<Rightarrow>
                     (let results = stringify env originResult;
                          maxAgeHeaderValue = headers response Headers_cacheControl
                      in if isCacheable
                         then
                           (let maxAge = chooseMaxAge env maxAgeHeaderValue;
                                res = \<lparr>status = constructed_status env,
                                       headers = defaultResponseHeaders env,
                                       body = Text results\<rparr>;
                                res = (if isPrivateAndCacheable
                                       then res\<lparr>headers := (headers res)
                                              (Headers_cacheControl \<mapsto>
                                                 ''private, max-age='' @ Number_toString maxAge
                                                 @ '', stale-while-revalidate=''
                                                 @ Number_toString maxAge)\<rparr>
                                       else res\<lparr>headers := (headers res)
                                              (Headers_cacheControl \<mapsto>
                                                 ''public, max-age='' @ Number_toString maxAge
                                                 @ '', stale-while-revalidate=''
                                                 @ Number_toString maxAge)\<rparr>);
                                serializableHeaders = headers res;
                                entry = \<lparr>cached_headers = serializableHeaders,
                                         cached_body = results\<rparr>
                            in case save env querySig entry maxAge of
                                 Inl error \<Rightarrow> ([Fetch, Save querySig entry maxAge], Inl error)
                               | Inr result \<Rightarrow>
                                   ([Fetch, Save querySig entry maxAge]
                                    @ (if \<not> result
                                       then [ConsoleError ''query could not be stored in cache'']
                                       else []),
                                    Inr (res\<lparr>headers := (headers res)
                                           (Headers_gcdnCache \<mapsto> CacheHitHeader_PASS)\<rparr>)))
                         else
                           ([Fetch],
                            Inr \<lparr>status = constructed_status env,
                                 headers = (defaultResponseHeaders env)
                                   (Headers_gcdnCache \<mapsto> CacheHitHeader_PASS),
                                 body = Text results\<rparr>)))
              else
                ([Fetch],
                 Inr (send 415
                       (ErrorMessage
                          (''Unsupported content-type "''
                           @ (case contentType of Some ct \<Rightarrow> ct | None \<Rightarrow> ''null'')
                           @ ''" from origin "'' @ GRAPHQL_URL env @ ''".''))
                       ((defaultResponseHeaders env)
                          (Headers_gcdnCache \<mapsto> CacheHitHeader_PASS))))))\<close>

text \<open>
  Lines 27 to 69, from the request to its classification: \<open>Inl\<close> is the handler's
  outcome when it ends here (an error thrown, or the 400 response sent), \<open>Inr\<close> is
  \<open>(hasPrivateTypes, content, isMutationRequest)\<close>.
\<close>

definition classification ::
  "('doc, 'schema, 'json) env \<Rightarrow> request
     \<Rightarrow> (js_error + sent_body response) + (bool \<times> string \<times> bool)" where
  \<open>classification env req =
     (case originalBody_query req of
        Inl error \<Rightarrow> Inl (Inl error)
      | Inr query \<Rightarrow>
          if \<not> truthy query
          then Inl (Inr (send 400 (ErrorMessage ''Request has no "query" field.'') Map.empty))
          else
            (case parse env query of
               Inl error \<Rightarrow> Inl (Inl error)
             | Inr queryDocumentNode \<Rightarrow>
                 (case classify env query queryDocumentNode of
                    Inl error \<Rightarrow>
                      Inl (Inr (send 400 (ThrownError error)
                                 (defaultResponseHeaders env
                                  ++ [Headers_gcdnCache \<mapsto> CacheHitHeader_ERROR,
                                      Headers_xCache \<mapsto> CacheHitHeader_HIT])))
                  | Inr classified \<Rightarrow> Inr classified)))\<close>

definition authHeader :: "request \<Rightarrow> string" where
  \<comment> \<open>\<^verbatim>\<open>req.headers.get(Headers.authorization) || ''\<close>\<close>
  "authHeader req = (case authorization req of Some a \<Rightarrow> a | None \<Rightarrow> [])"

text \<open>Lines 71 to 207, for a classified request.\<close>

definition serve ::
  "('doc, 'schema, 'json) env \<Rightarrow> request \<Rightarrow> bool \<Rightarrow> string \<Rightarrow> bool
     \<Rightarrow> event list \<times> (js_error + sent_body response)" where
  "serve env req hasPrivateTypes content isMutationRequest =
     (let isPrivateAndCacheable = (isMutationRequest = False \<and> hasPrivateTypes);
          (hashed, querySig) =
             querySignature env (authHeader req) content isPrivateAndCacheable isMutationRequest
      in if isMutationRequest = False
         then
           (case find_cache env querySig of
              Inl error \<Rightarrow> (hashed @ [Find querySig], Inl error)
            | Inr (val, meta) \<Rightarrow>
                (case val of
                   Some v \<Rightarrow> (hashed @ [Find querySig], Inr (hitResponse env v meta))
                 | None \<Rightarrow>
                     (let (evs, outcome) =
                            refresh env querySig isPrivateAndCacheable isMutationRequest
                      in (hashed @ [Find querySig] @ evs, outcome))))
         else
           (let (evs, outcome) =
                  refresh env querySig isPrivateAndCacheable isMutationRequest
            in (hashed @ evs, outcome)))"

text \<open>The handler: the trace of its calls, and the error thrown or the response returned.\<close>

definition graphql ::
  "('doc, 'schema, 'json) env \<Rightarrow> request \<Rightarrow> event list \<times> (js_error + sent_body response)" where
  "graphql env req =
     (case classification env req of
        Inl outcome \<Rightarrow> ([], outcome)
      | Inr (hasPrivateTypes, content, isMutationRequest) \<Rightarrow>
          serve env req hasPrivateTypes content isMutationRequest)"

text \<open>An environment and requests to run the handler on.\<close>

definition example_env :: "(string, unit, string) env" where
  \<open>example_env =
     \<lparr>GRAPHQL_URL = ''https://origin.example/graphql'',
      defaultMaxAgeInSeconds = Finite 900,
      PRIVATE_TYPES = ''User,Account'',
      parse = (\<lambda>q. case q of
                      JStr s \<Rightarrow> if s = ''{'' then Inl (Error ''Syntax Error'') else Inr s
                    | _ \<Rightarrow> Inl (Error ''Must provide Source'')),
      latest = Inr (Some ()),
      hasIntersectedTypes = (\<lambda>sch doc types. Inr (str_includes doc ''me'')),
      normalizeDocument = (\<lambda>q. case q of
                                  JStr s \<Rightarrow> Inr s
                                | _ \<Rightarrow> Inl (Error ''Must provide Source'')),
      isMutation = (\<lambda>doc. Inr (prefix ''mutation'' doc)),
      SHA256 = (\<lambda>s. ''sha:'' @ s),
      find_cache = (\<lambda>k. Inr (None, None)),
      save = (\<lambda>k e t. Inr True),
      fetch = Inr \<lparr>status = 200,
                   headers = [Headers_contentType \<mapsto> ''application/json'',
                              Headers_cacheControl \<mapsto> ''max-age=60''],
                   body = Inr ''{"data":{}}''\<rparr>,
      stringify = (\<lambda>j. j),
      now_date = 1000000,
      toUTCString = (\<lambda>t. ''Thu, 01 Jan 1970 00:16:40 GMT''),
      now_age = 1090600,
      spread_status = None\<rparr>\<close>

definition example_request :: "string \<Rightarrow> string option \<Rightarrow> request" where
  "example_request q auth = \<lparr>originalBody_query = Inr (JStr q), authorization = auth\<rparr>"

definition example_no_store_env :: "(string, unit, string) env" where
  \<open>example_no_store_env =
     example_env\<lparr>fetch := Inr \<lparr>status = 200,
                   headers = [Headers_contentType \<mapsto> ''application/json; charset=utf-8'',
                              Headers_cacheControl \<mapsto> ''no-store''],
                   body = Inr ''{"data":{"me":1}}''\<rparr>\<rparr>\<close>


definition example_normalizing_env :: "(string, unit, string) env" where
  "example_normalizing_env =
     example_env\<lparr>normalizeDocument := (\<lambda>q. case q of
        JStr s \<Rightarrow> Inr (filter (\<lambda>c. c \<noteq> CHR '' '') s)
      | _ \<Rightarrow> Inl (Error ''Must provide Source''))\<rparr>"

definition example_failing_env :: "(string, unit, string) env" where
  "example_failing_env = example_env\<lparr>latest := Inl (Error ''schema unavailable'')\<rparr>"

subsection \<open>Notions the statements use\<close>

text \<open>
  \<open>contains_ci s w\<close>: the lower-case word \<open>w\<close> occurs in \<open>s\<close> in some mix of cases.
  \<open>matches_at s j\<close>: the expression \<^verbatim>\<open>/max-age=(\d+)/\<close> matches \<open>s\<close> from index \<open>j\<close>.
  \<open>decimal_of ds\<close>: the integer that the decimal numeral \<open>ds\<close> writes, digit by digit
  from the most significant one.
  \<open>derivedKey\<close>: the signature the handler holds after lines 73 to 83.
  \<open>hashInput\<close>: the text that is digested for a request that is not a mutation.
  \<open>is_json\<close>: the test of line 132 on the origin's content type.
  \<open>directive\<close>: the \<^verbatim>\<open>Cache-Control\<close> value of lines 152 to 162.
\<close>

definition contains_ci :: "string \<Rightarrow> string \<Rightarrow> bool" where
  "contains_ci s w = (\<exists>p u q. s = p @ u @ q \<and> map to_lower u = w)"

definition digit_index :: "char \<Rightarrow> nat" where
  "digit_index c = length (takeWhile (\<lambda>d. d \<noteq> c) ''0123456789'')"

fun decimal_of :: "string \<Rightarrow> nat" where
  "decimal_of [] = 0"
| "decimal_of (c # cs) = digit_index c * 10 ^ length cs + decimal_of cs"

definition matches_at :: "string \<Rightarrow> nat \<Rightarrow> bool" where
  "matches_at s j = (\<exists>d r. drop j s = ''max-age='' @ d # r \<and> is_digit d)"

definition derivedKey :: "('doc, 'schema, 'json) env \<Rightarrow> request \<Rightarrow> bool \<Rightarrow> string \<Rightarrow> bool \<Rightarrow> string" where
  "derivedKey env req hasPrivateTypes content isMutationRequest =
     snd (querySignature env (authHeader req) content
            (isMutationRequest = False \<and> hasPrivateTypes) isMutationRequest)"

definition is_json :: "(js_error + 'json) response \<Rightarrow> bool" where
  "is_json response =
     (case headers response Headers_contentType of
        Some ct \<Rightarrow> str_includes ct ''application/json''
      | None \<Rightarrow> False)"

definition hashInput :: "request \<Rightarrow> bool \<Rightarrow> string \<Rightarrow> string" where
  "hashInput req hasPrivateTypes content =
     (if hasPrivateTypes then authHeader req @ content else content)"

definition directive :: "bool \<Rightarrow> js_number \<Rightarrow> string" where
  "directive isPrivateAndCacheable maxAge =
     (if isPrivateAndCacheable then ''private'' else ''public'')
     @ '', max-age='' @ Number_toString maxAge
     @ '', stale-while-revalidate='' @ Number_toString maxAge"

section \<open>Numbers and their text\<close>

text \<open>The equations that evaluate the number functions on a numeral.\<close>

lemmas number_eval =
  toString_def to_number_def round_nat_def bit_length.simps Let_def print_nat_def
  digits_of_nat.simps num_digits.simps zeros.simps candidate_def shortest.simps
  format_digits_def digits_value_def digit_val_def is_digit_def parseInt_digits_def

lemma digit_val_nth: "d < 10 \<Longrightarrow> digit_val (''0123456789'' ! d) = d"
proof -
  assume "d < 10"
  then have "d \<in> {0, 1, 2, 3, 4, 5, 6, 7, 8, 9}" by auto
  then show ?thesis by (auto simp: digit_val_def)
qed

lemma is_digit_nth: "d < 10 \<Longrightarrow> is_digit (''0123456789'' ! d)"
  unfolding is_digit_def by (rule nth_mem) simp

lemma digit_index_nth: "d < 10 \<Longrightarrow> digit_index (''0123456789'' ! d) = d"
proof -
  assume "d < 10"
  then have "d \<in> {0, 1, 2, 3, 4, 5, 6, 7, 8, 9}" by auto
  then show ?thesis by (auto simp: digit_index_def)
qed

lemma digit_val_index: "is_digit c \<Longrightarrow> digit_val c = digit_index c"
proof -
  assume "is_digit c"
  then have "\<exists>d<length ''0123456789''. ''0123456789'' ! d = c"
    unfolding is_digit_def by (simp only: in_set_conv_nth)
  then obtain d where d: "d < length ''0123456789''" and c: "''0123456789'' ! d = c"
    by blast
  have "length ''0123456789'' = 10" by simp
  with d have "d < 10" by (simp only:)
  then have "digit_val (''0123456789'' ! d) = digit_index (''0123456789'' ! d)"
    by (simp only: digit_val_nth digit_index_nth)
  then show ?thesis by (simp only: c)
qed

lemma digits_value_snoc:
  "digits_value (ds @ [c]) = 10 * digits_value ds + int (digit_val c)"
  by (simp add: digits_value_def)

lemma digits_value_of_nat: "digits_value (digits_of_nat n) = int n"
proof (induction n rule: digits_of_nat.induct)
  case (1 n)
  show ?case
  proof (cases "n < 10")
    case True
    then show ?thesis
      by (subst digits_of_nat.simps) (simp add: digits_value_def digit_val_nth)
  next
    case False
    then have "digits_value (digits_of_nat n) =
        10 * digits_value (digits_of_nat (n div 10)) + int (digit_val (''0123456789'' ! (n mod 10)))"
      by (subst digits_of_nat.simps) (simp add: digits_value_snoc)
    also have "\<dots> = 10 * int (n div 10) + int (n mod 10)"
      using "1.IH" [OF False] by (simp add: digit_val_nth)
    also have "\<dots> = int n" by presburger
    finally show ?thesis .
  qed
qed

lemma digits_of_nat_digits: "list_all is_digit (digits_of_nat n)"
proof (induction n rule: digits_of_nat.induct)
  case (1 n)
  show ?case
  proof (cases "n < 10")
    case True
    then show ?thesis by (subst digits_of_nat.simps) (simp add: is_digit_nth)
  next
    case False
    with "1.IH" show ?thesis by (subst digits_of_nat.simps) (simp add: is_digit_nth)
  qed
qed

lemma digits_of_nat_nonempty: "digits_of_nat n \<noteq> []"
  by (subst digits_of_nat.simps) simp

lemma foldl_decimal:
  "list_all is_digit ds \<Longrightarrow>
   foldl (\<lambda>acc c. 10 * acc + int (digit_val c)) a ds = a * 10 ^ length ds + int (decimal_of ds)"
proof (induction ds arbitrary: a)
  case Nil
  show ?case by simp
next
  case (Cons c cs)
  then have c: "is_digit c" and cs: "list_all is_digit cs" by simp_all
  have "foldl (\<lambda>acc c. 10 * acc + int (digit_val c)) a (c # cs)
      = foldl (\<lambda>acc c. 10 * acc + int (digit_val c)) (10 * a + int (digit_val c)) cs"
    by simp
  also have "\<dots> = (10 * a + int (digit_val c)) * 10 ^ length cs + int (decimal_of cs)"
    by (rule Cons.IH [OF cs])
  also have "\<dots> = a * 10 ^ length (c # cs) + int (decimal_of (c # cs))"
    by (simp add: digit_val_index [OF c] algebra_simps)
  finally show ?case .
qed

lemma digits_value_decimal: "list_all is_digit ds \<Longrightarrow> digits_value ds = int (decimal_of ds)"
  by (simp add: digits_value_def foldl_decimal)

lemma digits_value_nonneg: "0 \<le> digits_value ds"
proof -
  have "0 \<le> a \<Longrightarrow> 0 \<le> foldl (\<lambda>acc c. 10 * acc + int (digit_val c)) a ds" for a
    by (induction ds arbitrary: a) auto
  then show ?thesis by (simp add: digits_value_def)
qed

lemma bit_length_bounds: "0 < n \<Longrightarrow> 2 ^ (bit_length n - 1) \<le> n \<and> n < 2 ^ bit_length n"
proof (induction n rule: bit_length.induct)
  case (1 n)
  show ?case
  proof (cases "n div 2 = 0")
    case True
    with "1.prems" have "n = 1" by (simp add: div_eq_0_iff) 
    then show ?thesis by (simp add: bit_length.simps)
  next
    case False
    then have pos: "0 < n div 2" by simp
    from "1.prems" have n0: "n \<noteq> 0" by simp
    from "1.IH" [OF n0 pos]
    have lo: "2 ^ (bit_length (n div 2) - 1) \<le> n div 2" and hi: "n div 2 < 2 ^ bit_length (n div 2)"
      by simp_all
    have b: "bit_length n = Suc (bit_length (n div 2))"
      using n0 by (subst bit_length.simps) simp
    have bp: "0 < bit_length (n div 2)"
      using pos by (subst bit_length.simps) simp
    then have e: "2 ^ (bit_length n - 1) = 2 * 2 ^ (bit_length (n div 2) - 1)"
      unfolding b by (cases "bit_length (n div 2)") simp_all
    have "2 * 2 ^ (bit_length (n div 2) - 1) \<le> 2 * (n div 2)"
      using lo by simp
    also have "\<dots> \<le> n" by simp
    finally have 1: "2 ^ (bit_length n - 1) \<le> n" unfolding e .
    have "n < 2 * (n div 2) + 2" by presburger
    also have "\<dots> \<le> 2 * 2 ^ bit_length (n div 2)"
      using hi by simp
    finally have 2: "n < 2 ^ bit_length n" unfolding b by simp
    from 1 2 show ?thesis ..
  qed
qed

text \<open>
  From \<open>2^53\<close> on, the value that \<open>round_nat\<close> gives is a double of the binade of \<open>n\<close>
  (a significand of 53 bits times the power of two \<open>2^e\<close>) at most half of \<open>2^e\<close> away
  from \<open>n\<close>: a nearest double.
\<close>

lemma round_nat_nearest:
  assumes big: "2 ^ 53 \<le> n" and r: "round_nat n = Some v"
  shows "\<exists>q. 2 ^ 52 \<le> q \<and> q \<le> 2 ^ 53 \<and> v = q * 2 ^ (bit_length n - 53)
           \<and> 2 * \<bar>int v - int n\<bar> \<le> 2 ^ (bit_length n - 53)"
proof -
  define e where "e = bit_length n - 53"
  define q where "q = n div 2 ^ e"
  define rem where "rem = n mod 2 ^ e"
  define q' where "q' = (if 2 ^ (e - 1) < rem \<or> (rem = 2 ^ (e - 1) \<and> odd q) then q + 1 else q)"
  have npos: "0 < n" using big by (simp add: less_le_trans [of 0 "2 ^ 53"])
  from bit_length_bounds [OF npos]
  have lo: "2 ^ (bit_length n - 1) \<le> n" and hi: "n < 2 ^ bit_length n" by simp_all
  have bl: "53 < bit_length n"
  proof (rule ccontr)
    assume "\<not> 53 < bit_length n"
    then have "bit_length n \<le> 53" by simp
    then have "(2::nat) ^ bit_length n \<le> 2 ^ 53" by (rule power_increasing) simp
    with hi big show False by simp
  qed
  then have e1: "1 \<le> e" and be: "bit_length n = e + 53" by (simp_all add: e_def)
  have n: "n = q * 2 ^ e + rem"
    unfolding q_def rem_def by (rule div_mult_mod_eq [symmetric])
  have rem: "rem < 2 ^ e" by (simp add: rem_def)
  have "q * 2 ^ e \<le> n" by (simp add: n)
  also have "n < 2 ^ 53 * 2 ^ e" using hi unfolding be by (simp add: power_add mult.commute)
  finally have qhi: "q < 2 ^ 53" by simp
  have "2 ^ 52 * 2 ^ e \<le> (n::nat)"
    using lo unfolding be by (simp add: power_add mult.commute)
  also have "n < (q + 1) * 2 ^ e" using rem by (simp add: n)
  finally have "2 ^ 52 < q + 1" by simp
  then have qlo: "2 ^ 52 \<le> q" by simp
  have "\<not> n < 2 ^ 53" using big by simp
  then have "round_nat n = (if 971 < e \<or> (e = 971 \<and> q' = 2 ^ 53) then None else Some (q' * 2 ^ e))"
    unfolding round_nat_def Let_def e_def q_def rem_def q'_def by (simp only: if_False)
  with r have "(if 971 < e \<or> (e = 971 \<and> q' = 2 ^ 53) then None else Some (q' * 2 ^ e)) = Some v"
    by (simp only:)
  then have v: "v = q' * 2 ^ e"
    by (cases "971 < e \<or> (e = 971 \<and> q' = 2 ^ 53)") (simp_all only: if_True if_False option.inject option.distinct)
  define h where "h = (2::nat) ^ (e - 1)"
  have two: "(2::nat) ^ e = 2 * h"
    using e1 unfolding h_def by (cases e) simp_all
  then have itwo: "(2::int) ^ e = 2 * int h"
    by (metis of_nat_numeral of_nat_power of_nat_mult)
  have irem: "int rem < 2 * int h"
    using rem two by simp
  have d: "2 * \<bar>int v - int n\<bar> \<le> 2 ^ e"
  proof (cases "h < rem \<or> (rem = h \<and> odd q)")
    case True
    then have "q' = q + 1" by (simp add: q'_def h_def)
    then have "v = q * 2 ^ e + 2 ^ e" by (simp add: v algebra_simps)
    then have "int v - int n = 2 * int h - int rem" by (simp add: n two)
    moreover have "int h \<le> int rem" using True by auto
    ultimately show ?thesis unfolding itwo using irem by (simp add: abs_if)
  next
    case False
    then have "q' = q" by (simp add: q'_def h_def)
    then have "v = q * 2 ^ e" by (simp add: v)
    then have "int v - int n = - int rem" by (simp add: n)
    moreover have "int rem \<le> int h" using False by auto
    ultimately show ?thesis unfolding itwo by (simp add: abs_if)
  qed
  have "2 ^ 52 \<le> q' \<and> q' \<le> 2 ^ 53"
    using qlo qhi by (simp add: q'_def)
  with v d show ?thesis unfolding e_def by (intro exI [of _ q']) simp
qed

lemma round_nat_small: "n \<le> 2 ^ 53 \<Longrightarrow> round_nat n = Some n"
proof (cases "n < 2 ^ 53")
  case True
  then show ?thesis by (simp add: round_nat_def)
next
  case False
  assume "n \<le> 2 ^ 53"
  with False have n: "n = 9007199254740992" by simp
  show ?thesis unfolding n by (simp add: round_nat_def bit_length.simps Let_def)
qed

lemma to_number_small: "\<bar>i\<bar> \<le> 2 ^ 53 \<Longrightarrow> to_number i = Finite i"
proof -
  assume "\<bar>i\<bar> \<le> 2 ^ 53"
  then have "nat \<bar>i\<bar> \<le> 2 ^ 53" by (simp add: nat_le_iff)
  then have "round_nat (nat \<bar>i\<bar>) = Some (nat \<bar>i\<bar>)" by (rule round_nat_small)
  then show ?thesis by (simp add: to_number_def)
qed

lemma to_number_nonneg:
  "0 \<le> i \<Longrightarrow> to_number i = PosInfinity \<or> (\<exists>v\<ge>0. to_number i = Finite v)"
  by (cases "round_nat (nat \<bar>i\<bar>)") (simp_all add: to_number_def)

lemma parseInt_digits_not_sentinel: "parseInt_digits ds \<noteq> Finite (- 1)"
  using to_number_nonneg [OF digits_value_nonneg [of ds]] by (auto simp: parseInt_digits_def)

lemma parseInt_digits_gt_sentinel: "js_gt (parseInt_digits ds) (Finite (- 1))"
  using to_number_nonneg [OF digits_value_nonneg [of ds]] by (auto simp: parseInt_digits_def)

lemma Number_toString_small:
  "0 \<le> i \<Longrightarrow> i \<le> 2 ^ 53 \<Longrightarrow> Number_toString (Finite i) = digits_of_nat (nat i)"
proof -
  assume "0 \<le> i" "i \<le> 2 ^ 53"
  then have "nat i \<le> 2 ^ 53" by (simp add: nat_le_iff)
  with \<open>0 \<le> i\<close> show ?thesis by (simp add: print_nat_def)
qed

lemma toString_small:
  "\<bar>i\<bar> \<le> 2 ^ 53 \<Longrightarrow>
   toString i = (if i < 0 then CHR ''-'' # digits_of_nat (nat (- i)) else digits_of_nat (nat i))"
proof -
  assume a: "\<bar>i\<bar> \<le> 2 ^ 53"
  then have "nat \<bar>i\<bar> \<le> 2 ^ 53" by (simp add: nat_le_iff)
  then have "nat (- i) \<le> 2 ^ 53" "nat i \<le> 2 ^ 53" by simp_all
  then show ?thesis
    by (simp add: toString_def to_number_small [OF a] print_nat_def)
qed

text \<open>
  Some values: a tie goes to the even significand, \<open>10^23\<close> is no double, and the text
  turns to the exponent form at \<open>10^21\<close>.
\<close>

lemma to_number_examples:
  "to_number 9007199254740993 = Finite 9007199254740992"
  "to_number 9007199254740995 = Finite 9007199254740996"
  "to_number (10 ^ 23) = Finite 99999999999999991611392"
  by (simp_all add: number_eval)

lemma Number_toString_examples:
  "Number_toString (Finite 9007199254740992) = ''9007199254740992''"
  "Number_toString (Finite (10 ^ 21)) = ''1e+21''"
  "Number_toString (Finite 99999999999999991611392) = ''1e+23''"
  "Number_toString (Finite (- 60)) = ''-60''"
  by (simp_all add: number_eval)


section \<open>Header policy\<close>

subsection \<open>Cacheability of a response\<close>

lemma str_includes_sublist: "str_includes s w = sublist w s"
  by (induction s) (simp_all add: sublist_Cons_right)

lemma sublist_map_iff:
  "sublist w (map f s) \<longleftrightarrow> (\<exists>p u q. s = p @ u @ q \<and> map f u = w)"
proof
  assume "sublist w (map f s)"
  then obtain ps ss where "map f s = ps @ (w @ ss)"
    by (auto simp: sublist_def)
  then obtain p r where s: "s = p @ r" and r: "map f r = w @ ss"
    by (metis map_eq_append_conv)
  from r obtain u q where "r = u @ q" "map f u = w"
    by (metis map_eq_append_conv)
  with s show "\<exists>p u q. s = p @ u @ q \<and> map f u = w" by blast
next
  assume "\<exists>p u q. s = p @ u @ q \<and> map f u = w"
  then obtain p u q where "s = p @ u @ q" "map f u = w" by blast
  then have "map f s = map f p @ w @ map f q" by simp
  then show "sublist w (map f s)" unfolding sublist_def by blast
qed

lemma str_includes_lower: "str_includes (map to_lower s) w = contains_ci s w"
  by (simp add: str_includes_sublist contains_ci_def sublist_map_iff)

text \<open>
  Claim C8. \<open>isResponseCachable\<close> is false for status 206, false when the \<^verbatim>\<open>Vary\<close>
  header contains \<^verbatim>\<open>*\<close>, false when the \<^verbatim>\<open>Cache-Control\<close> header contains
  \<^verbatim>\<open>no-cache\<close> or \<^verbatim>\<open>no-store\<close> in any mix of cases, and true in every other
  case. It is a function of the response alone, so it has no effect.
\<close>

theorem isResponseCachable_spec:
  "isResponseCachable res \<longleftrightarrow>
     \<not> (status res = 206
        \<or> (\<exists>vary. headers res ''vary'' = Some vary \<and> CHR ''*'' \<in> set vary)
        \<or> (\<exists>cc. headers res ''cache-control'' = Some cc
                \<and> (contains_ci cc ''no-cache'' \<or> contains_ci cc ''no-store'')))"
proof -
  have e: "contains_ci [] w \<longleftrightarrow> w = []" for w
    by (auto simp: contains_ci_def)
  have v: "CHR ''*'' \<in> set (get_or_empty (headers res) ''vary'')
      \<longleftrightarrow> (\<exists>vary. headers res ''vary'' = Some vary \<and> CHR ''*'' \<in> set vary)"
    by (cases "headers res ''vary''") (simp_all add: get_or_empty_def)
  have c: "contains_ci (get_or_empty (headers res) ''cache-control'') w
      \<longleftrightarrow> (\<exists>cc. headers res ''cache-control'' = Some cc \<and> contains_ci cc w)"
    if "w \<noteq> []" for w
    using that by (cases "headers res ''cache-control''") (simp_all add: get_or_empty_def e)
  have "isResponseCachable res \<longleftrightarrow>
     \<not> (status res = 206 \<or> CHR ''*'' \<in> set (get_or_empty (headers res) ''vary'')
        \<or> contains_ci (get_or_empty (headers res) ''cache-control'') ''no-cache''
        \<or> contains_ci (get_or_empty (headers res) ''cache-control'') ''no-store'')"
    by (simp add: isResponseCachable_def Let_def str_includes_lower)
  also have "\<dots> \<longleftrightarrow>
     \<not> (status res = 206
        \<or> (\<exists>vary. headers res ''vary'' = Some vary \<and> CHR ''*'' \<in> set vary)
        \<or> (\<exists>cc. headers res ''cache-control'' = Some cc
                \<and> (contains_ci cc ''no-cache'' \<or> contains_ci cc ''no-store'')))"
    unfolding v c [of "''no-cache''", simplified] c [of "''no-store''", simplified] by blast
  finally show ?thesis .
qed

theorem isResponseCachable_spec_witness:
  "\<not> isResponseCachable \<lparr>status = 200, headers = [''cache-control'' \<mapsto> ''public, No-Store''], body = ()\<rparr>
   \<and> isResponseCachable \<lparr>status = 200, headers = [''cache-control'' \<mapsto> ''max-age=60'', ''vary'' \<mapsto> ''accept''], body = ()\<rparr>
   \<and> \<not> isResponseCachable \<lparr>status = 206, headers = Map.empty, body = ()\<rparr>"
  using isResponseCachable_spec [of "\<lparr>status = 200, headers = [''cache-control'' \<mapsto> ''public, No-Store''], body = ()\<rparr>"]
  by (simp add: isResponseCachable_def get_or_empty_def to_lower_def)

subsection \<open>The \<^verbatim>\<open>max-age\<close> directive\<close>

lemma takeWhile_nonempty: "takeWhile P xs \<noteq> [] \<longleftrightarrow> (\<exists>d r. xs = d # r \<and> P d)"
  by (cases xs) auto

lemma matches_at_0: "matches_at s 0 \<longleftrightarrow> prefix ''max-age='' s \<and> takeWhile is_digit (drop 8 s) \<noteq> []"
proof
  assume "matches_at s 0"
  then obtain d r where s: "s = ''max-age='' @ d # r" and d: "is_digit d"
    by (auto simp: matches_at_def)
  show "prefix ''max-age='' s \<and> takeWhile is_digit (drop 8 s) \<noteq> []"
    unfolding s using d by simp
next
  assume a: "prefix ''max-age='' s \<and> takeWhile is_digit (drop 8 s) \<noteq> []"
  then obtain zs where s: "s = ''max-age='' @ zs" by (auto simp: prefix_def)
  from a have "takeWhile is_digit zs \<noteq> []" unfolding s by simp
  then obtain d r where "zs = d # r" "is_digit d" by (auto simp: takeWhile_nonempty)
  then show "matches_at s 0" unfolding s matches_at_def by simp
qed

lemma matches_at_Suc: "matches_at (c # cs) (Suc j) = matches_at cs j"
  by (simp add: matches_at_def)

lemma matches_at_Nil: "\<not> matches_at [] j"
  by (simp add: matches_at_def)

lemma match_max_age_step:
  "match_max_age (c # cs) =
     (if matches_at (c # cs) 0 then Some (takeWhile is_digit (drop 8 (c # cs)))
      else match_max_age cs)"
  using matches_at_0 [of "c # cs"] by simp

lemma match_max_age_None: "match_max_age s = None \<longleftrightarrow> (\<forall>j. \<not> matches_at s j)"
proof (induction s)
  case Nil
  show ?case by (simp add: matches_at_Nil)
next
  case (Cons c cs)
  have split: "(\<forall>j. \<not> matches_at (c # cs) j) \<longleftrightarrow> \<not> matches_at (c # cs) 0 \<and> (\<forall>j. \<not> matches_at cs j)"
    by (metis matches_at_Suc not0_implies_Suc)
  show ?case
    unfolding split match_max_age_step using Cons.IH by simp
qed

lemma match_max_age_Some:
  "matches_at s j \<Longrightarrow> \<forall>i<j. \<not> matches_at s i \<Longrightarrow>
   match_max_age s = Some (takeWhile is_digit (drop (j + 8) s))"
proof (induction s arbitrary: j)
  case Nil
  then show ?case by (simp add: matches_at_Nil)
next
  case (Cons c cs)
  show ?case
  proof (cases j)
    case 0
    with Cons.prems(1) show ?thesis unfolding match_max_age_step by simp
  next
    case (Suc k)
    with Cons.prems have k: "matches_at cs k" and no0: "\<not> matches_at (c # cs) 0"
      and nok: "\<forall>i<k. \<not> matches_at cs i"
      using matches_at_Suc by auto
    have "j + 8 = Suc (k + 8)"
      using Suc by simp
    then have "drop (j + 8) (c # cs) = drop (k + 8) cs"
      by (simp only: drop_Suc_Cons)
    with Cons.IH [OF k nok] no0 show ?thesis
      unfolding match_max_age_step by simp
  qed
qed

text \<open>
  Claim C9, amended. For every string, \<open>parseMaxAge\<close> returns the Number value of
  the integer written after the leftmost \<^verbatim>\<open>max-age=\<close> that digits follow (the whole
  run of digits): that integer itself when it is at most \<open>2^53\<close>, the nearest double
  beyond. It returns \<open>- 1\<close> exactly when there is no such place. Being total, it throws
  on no input.
\<close>

theorem parseMaxAge_number_value:
  "(\<forall>j. matches_at header j \<and> (\<forall>i<j. \<not> matches_at header i) \<longrightarrow>
        parseMaxAge header
          = to_number (int (decimal_of (takeWhile is_digit (drop (j + 8) header))))
        \<and> (decimal_of (takeWhile is_digit (drop (j + 8) header)) \<le> 2 ^ 53 \<longrightarrow>
             parseMaxAge header
               = Finite (int (decimal_of (takeWhile is_digit (drop (j + 8) header))))))
   \<and> ((\<forall>j. \<not> matches_at header j) \<longleftrightarrow> parseMaxAge header = Finite (- 1))"
proof (intro conjI allI impI)
  fix j
  let ?run = "takeWhile is_digit (drop (j + 8) header)"
  assume m: "matches_at header j \<and> (\<forall>i<j. \<not> matches_at header i)"
  have d: "list_all is_digit ?run"
    by (simp add: list_all_iff) (meson set_takeWhileD)
  from m have "match_max_age header = Some ?run"
    using match_max_age_Some [of header j] by simp
  then show v: "parseMaxAge header = to_number (int (decimal_of ?run))"
    by (simp add: parseMaxAge_def parseInt_digits_def digits_value_decimal [OF d])
  assume "decimal_of ?run \<le> 2 ^ 53"
  then have "\<bar>int (decimal_of ?run)\<bar> \<le> 2 ^ 53"
    by (simp add: of_nat_le_iff [of _ "2 ^ 53", simplified])
  then show "parseMaxAge header = Finite (int (decimal_of ?run))"
    unfolding v by (rule to_number_small)
next
  show "(\<forall>j. \<not> matches_at header j) \<longleftrightarrow> parseMaxAge header = Finite (- 1)"
  proof (cases "match_max_age header")
    case None
    then show ?thesis using match_max_age_None [of header] by (simp add: parseMaxAge_def)
  next
    case (Some ds)
    then show ?thesis
      using match_max_age_None [of header] parseInt_digits_not_sentinel [of ds]
      by (simp add: parseMaxAge_def)
  qed
qed

lemma takeWhile_digits:
  "list_all is_digit ds \<Longrightarrow> \<not> is_digit c \<Longrightarrow> takeWhile is_digit (ds @ c # r) = ds"
  by (induction ds) auto

lemma matches_at_max_age_prefix:
  "is_digit d \<Longrightarrow> matches_at (''max-age='' @ d # r) 0"
  by (simp add: matches_at_def)

theorem parseMaxAge_number_value_witness:
  "parseMaxAge ''max-age=60, public'' = Finite 60
   \<and> parseMaxAge ''max-age=0031536000; x'' = Finite 31536000
   \<and> parseMaxAge ''max-age=9007199254740992'' = Finite 9007199254740992
   \<and> parseMaxAge ''max-age=9007199254740995'' = Finite 9007199254740996
   \<and> matches_at ''x-max-age=7'' 2
   \<and> \<not> matches_at ''x-max-age=7'' 0
   \<and> \<not> matches_at ''x-max-age=7'' 1
   \<and> parseMaxAge ''x-max-age=7'' = Finite 7
   \<and> (\<forall>j. \<not> matches_at ''no-store, Max-Age=5'' j)
   \<and> parseMaxAge ''no-store, Max-Age=5'' = Finite (- 1)"
proof -
  have six: "is_digit CHR ''6''" and zero: "is_digit CHR ''0''" and nine: "is_digit CHR ''9''"
    by (simp_all add: is_digit_def)
  have a1: "parseMaxAge ''max-age=60, public'' = Finite 60"
  proof -
    have m: "matches_at ''max-age=60, public'' 0 \<and> (\<forall>i<0. \<not> matches_at ''max-age=60, public'' i)"
      using matches_at_max_age_prefix [OF six] by simp
    have r: "takeWhile is_digit (drop (0 + 8) ''max-age=60, public'') = ''60''"
      by (simp add: is_digit_def)
    have d: "decimal_of ''60'' = 60"
      by (simp add: digit_index_def)
    from parseMaxAge_number_value [of "''max-age=60, public''"] m
    have "decimal_of (takeWhile is_digit (drop (0 + 8) ''max-age=60, public'')) \<le> 2 ^ 53 \<longrightarrow>
        parseMaxAge ''max-age=60, public''
          = Finite (int (decimal_of (takeWhile is_digit (drop (0 + 8) ''max-age=60, public''))))"
      by blast
    then show ?thesis unfolding r d by simp
  qed
  have a2: "parseMaxAge ''max-age=0031536000; x'' = Finite 31536000"
  proof -
    have m: "matches_at ''max-age=0031536000; x'' 0
        \<and> (\<forall>i<0. \<not> matches_at ''max-age=0031536000; x'' i)"
      using matches_at_max_age_prefix [OF zero] by simp
    have r: "takeWhile is_digit (drop (0 + 8) ''max-age=0031536000; x'') = ''0031536000''"
      by (simp add: is_digit_def)
    have d: "decimal_of ''0031536000'' = 31536000"
      by (simp add: digit_index_def)
    from parseMaxAge_number_value [of "''max-age=0031536000; x''"] m
    have "decimal_of (takeWhile is_digit (drop (0 + 8) ''max-age=0031536000; x'')) \<le> 2 ^ 53 \<longrightarrow>
        parseMaxAge ''max-age=0031536000; x''
          = Finite (int (decimal_of (takeWhile is_digit (drop (0 + 8) ''max-age=0031536000; x''))))"
      by blast
    then show ?thesis unfolding r d by simp
  qed
  have a3: "parseMaxAge ''max-age=9007199254740992'' = Finite 9007199254740992"
  proof -
    have m: "matches_at ''max-age=9007199254740992'' 0
        \<and> (\<forall>i<0. \<not> matches_at ''max-age=9007199254740992'' i)"
      using matches_at_max_age_prefix [OF nine] by simp
    have r: "takeWhile is_digit (drop (0 + 8) ''max-age=9007199254740992'') = ''9007199254740992''"
      by (simp add: is_digit_def)
    have d: "decimal_of ''9007199254740992'' = 9007199254740992"
      by (simp add: digit_index_def)
    from parseMaxAge_number_value [of "''max-age=9007199254740992''"] m
    have "decimal_of (takeWhile is_digit (drop (0 + 8) ''max-age=9007199254740992'')) \<le> 2 ^ 53 \<longrightarrow>
        parseMaxAge ''max-age=9007199254740992''
          = Finite (int (decimal_of (takeWhile is_digit (drop (0 + 8) ''max-age=9007199254740992''))))"
      by blast
    then show ?thesis unfolding r d by simp
  qed
  have a4: "parseMaxAge ''max-age=9007199254740995'' = Finite 9007199254740996"
  proof -
    have m: "matches_at ''max-age=9007199254740995'' 0
        \<and> (\<forall>i<0. \<not> matches_at ''max-age=9007199254740995'' i)"
      using matches_at_max_age_prefix [OF nine] by simp
    have r: "takeWhile is_digit (drop (0 + 8) ''max-age=9007199254740995'') = ''9007199254740995''"
      by (simp add: is_digit_def)
    have d: "decimal_of ''9007199254740995'' = 9007199254740995"
      by (simp add: digit_index_def)
    have t: "to_number (int 9007199254740995) = Finite 9007199254740996"
      by (simp add: to_number_def round_nat_def bit_length.simps Let_def)
    from parseMaxAge_number_value [of "''max-age=9007199254740995''"] m
    have "parseMaxAge ''max-age=9007199254740995''
          = to_number (int (decimal_of (takeWhile is_digit (drop (0 + 8) ''max-age=9007199254740995''))))"
      by blast
    then show ?thesis unfolding r d t .
  qed
  have n0: "\<not> matches_at ''x-max-age=7'' 0" and n1: "\<not> matches_at ''x-max-age=7'' 1"
    and y2: "matches_at ''x-max-age=7'' 2"
    by (simp_all add: matches_at_def is_digit_def)
  have a5: "parseMaxAge ''x-max-age=7'' = Finite 7"
  proof -
    have "i < 2 \<Longrightarrow> i = 0 \<or> i = 1" for i :: nat
      by auto
    with n0 n1 y2
    have m: "matches_at ''x-max-age=7'' 2 \<and> (\<forall>i<2. \<not> matches_at ''x-max-age=7'' i)"
      by blast
    have r: "takeWhile is_digit (drop (2 + 8) ''x-max-age=7'') = ''7''"
      by (simp add: is_digit_def)
    have d: "decimal_of ''7'' = 7"
      by (simp add: digit_index_def)
    from parseMaxAge_number_value [of "''x-max-age=7''"] m
    have "decimal_of (takeWhile is_digit (drop (2 + 8) ''x-max-age=7'')) \<le> 2 ^ 53 \<longrightarrow>
        parseMaxAge ''x-max-age=7''
          = Finite (int (decimal_of (takeWhile is_digit (drop (2 + 8) ''x-max-age=7''))))"
      by blast
    then show ?thesis unfolding r d by simp
  qed
  have s: "parseMaxAge ''no-store, Max-Age=5'' = Finite (- 1)"
    by (simp add: parseMaxAge_def)
  with parseMaxAge_number_value [of "''no-store, Max-Age=5''"]
  have a6: "\<forall>j. \<not> matches_at ''no-store, Max-Age=5'' j"
    by blast
  from a1 a2 a3 a4 a5 a6 s n0 n1 y2 show ?thesis
    by blast
qed

text \<open>
  The statement of C9 as it is written fails beyond \<open>2^53\<close>: the integer after
  \<^verbatim>\<open>max-age=\<close> is \<open>2^53 + 1\<close>, and \<^verbatim>\<open>parseInt\<close> returns the double \<open>2^53\<close>.
\<close>

theorem parseMaxAge_counterexample:
  "matches_at ''max-age=9007199254740993'' 0
   \<and> decimal_of ''9007199254740993'' = 9007199254740993
   \<and> parseMaxAge ''max-age=9007199254740993'' = Finite 9007199254740992"
  by (simp add: matches_at_def parseMaxAge_def number_eval digit_index_def)

lemma parseMaxAge_directive:
  assumes "0 \<le> m" and "m \<le> 2 ^ 53" and "scope = ''public'' \<or> scope = ''private''"
  shows "parseMaxAge (scope @ '', max-age='' @ Number_toString (Finite m)
           @ '', stale-while-revalidate='' @ Number_toString (Finite m)) = Finite m"
proof -
  have c: "\<not> is_digit CHR '',''" by (simp add: is_digit_def)
  have t: "takeWhile is_digit (digits_of_nat (nat m) @ CHR '','' # r) = digits_of_nat (nat m)" for r
    by (rule takeWhile_digits [OF digits_of_nat_digits c])
  have n: "Number_toString (Finite m) = digits_of_nat (nat m)"
    using assms(1,2) by (rule Number_toString_small)
  have "match_max_age (scope @ '', max-age='' @ Number_toString (Finite m)
           @ '', stale-while-revalidate='' @ Number_toString (Finite m))
      = Some (digits_of_nat (nat m))"
    unfolding n using assms(3) by (auto simp: t digits_of_nat_nonempty)
  moreover have "to_number m = Finite m"
    using assms(1,2) by (intro to_number_small) simp
  ultimately show ?thesis
    using assms(1) by (simp add: parseMaxAge_def parseInt_digits_def digits_value_of_nat)
qed

lemma max_age_exponent_form:
  "parseMaxAge ''max-age=1000000000000000000000'' = Finite (10 ^ 21)"
  "directive False (Finite (10 ^ 21)) = ''public, max-age=1e+21, stale-while-revalidate=1e+21''"
  "parseMaxAge ''public, max-age=1e+21, stale-while-revalidate=1e+21'' = Finite 1"
  by (simp_all add: parseMaxAge_def directive_def number_eval)

section \<open>The handler\<close>

subsection \<open>The paths through the handler\<close>

lemma graphql_classified:
  "classification env req = Inr (p, c, m) \<Longrightarrow> graphql env req = serve env req p c m"
  by (simp add: graphql_def)

lemma serve_mutation: "serve env req p c True = refresh env [] False True"
  by (simp add: serve_def querySignature_def)

lemma derivedKey_cases:
  "derivedKey env req priv content isMut =
     (if isMut then [] else SHA256 env (hashInput req priv content))"
  by (simp add: derivedKey_def querySignature_def hashInput_def)

lemma serve_query:
  "serve env req priv content False =
     (case find_cache env (derivedKey env req priv content False) of
        Inl error \<Rightarrow>
          ([Hash (hashInput req priv content), Find (derivedKey env req priv content False)],
           Inl error)
      | Inr (val, meta) \<Rightarrow>
          (case val of
             Some v \<Rightarrow>
               ([Hash (hashInput req priv content), Find (derivedKey env req priv content False)],
                Inr (hitResponse env v meta))
           | None \<Rightarrow>
               ([Hash (hashInput req priv content), Find (derivedKey env req priv content False)]
                  @ fst (refresh env (derivedKey env req priv content False) priv False),
                snd (refresh env (derivedKey env req priv content False) priv False))))"
  by (simp add: serve_def derivedKey_def querySignature_def hashInput_def Let_def
      split: sum.splits option.splits prod.splits)

lemma miss_trace:
  assumes "classification env req = Inr (priv, content, False)"
    and "find_cache env (derivedKey env req priv content False) = Inr (None, meta)"
  shows "graphql env req =
     ([Hash (hashInput req priv content), Find (derivedKey env req priv content False)]
        @ fst (refresh env (derivedKey env req priv content False) priv False),
      snd (refresh env (derivedKey env req priv content False) priv False))"
  unfolding graphql_classified [OF assms(1)] serve_query using assms(2) by simp

lemma refresh_trace_keys: "set (store_keys (fst (refresh env k p m))) \<subseteq> {k}"
  by (auto simp: refresh_def Let_def split: sum.splits option.splits if_splits)

lemma query_trace_shape:
  assumes "classification env req = Inr (priv, content, False)"
  shows "take 2 (fst (graphql env req)) =
           [Hash (hashInput req priv content), Find (derivedKey env req priv content False)]
       \<and> set (store_keys (fst (graphql env req))) = {derivedKey env req priv content False}"
proof -
  show ?thesis
    unfolding graphql_classified [OF assms] serve_query
    using refresh_trace_keys [of env "derivedKey env req priv content False" priv False]
    by (auto split: sum.splits option.splits)
qed

lemma refresh_uncacheable_trace: "fst (refresh env k False True) = [Fetch]"
  by (simp add: refresh_def Let_def split: sum.splits option.splits)

lemma refresh_uncacheable_header:
  "snd (refresh env k False True) = Inr r \<Longrightarrow> headers r Headers_gcdnCache = Some CacheHitHeader_PASS"
  by (auto simp: refresh_def Let_def send_def split: sum.splits option.splits if_splits)

lemma refresh_uncacheable_returns:
  "fetch env = Inr response \<Longrightarrow> (is_json response \<longrightarrow> (\<exists>j. body response = Inr j)) \<Longrightarrow>
   \<exists>r. snd (refresh env k False True) = Inr r"
  by (auto simp: refresh_def Let_def is_json_def split: sum.splits option.splits if_splits)

lemma refresh_json:
  assumes "fetch env = Inr response" and "is_json response" and "body response = Inr originResult"
  shows "refresh env k p m =
     (if (m = False \<and> isResponseCachable response) \<or> p
      then (let maxAge = chooseMaxAge env (headers response Headers_cacheControl);
                entry = \<lparr>cached_headers =
                          (defaultResponseHeaders env)(Headers_cacheControl \<mapsto> directive p maxAge),
                        cached_body = stringify env originResult\<rparr>
            in case save env k entry maxAge of
                 Inl error \<Rightarrow> ([Fetch, Save k entry maxAge], Inl error)
               | Inr result \<Rightarrow>
                   ([Fetch, Save k entry maxAge]
                    @ (if \<not> result then [ConsoleError ''query could not be stored in cache''] else []),
                    Inr \<lparr>status = constructed_status env,
                         headers = (defaultResponseHeaders env)
                           (Headers_cacheControl \<mapsto> directive p maxAge,
                            Headers_gcdnCache \<mapsto> CacheHitHeader_PASS),
                         body = Text (stringify env originResult)\<rparr>))
      else ([Fetch],
            Inr \<lparr>status = constructed_status env,
                 headers = (defaultResponseHeaders env)(Headers_gcdnCache \<mapsto> CacheHitHeader_PASS),
                 body = Text (stringify env originResult)\<rparr>))"
  using assms
  by (simp add: refresh_def is_json_def directive_def Let_def split: option.splits sum.splits)

lemma refresh_json_saves:
  assumes "fetch env = Inr response" and "is_json response" and "body response = Inr originResult"
  shows "filter is_save (fst (refresh env k p m)) =
     (if (m = False \<and> isResponseCachable response) \<or> p
      then [Save k \<lparr>cached_headers =
                       (defaultResponseHeaders env)
                         (Headers_cacheControl \<mapsto>
                            directive p (chooseMaxAge env (headers response Headers_cacheControl))),
                     cached_body = stringify env originResult\<rparr>
              (chooseMaxAge env (headers response Headers_cacheControl))]
      else [])"
  unfolding refresh_json [OF assms] by (simp add: Let_def split: sum.splits)


lemma parseMaxAge_empty: "parseMaxAge [] = Finite (- 1)"
  by (simp add: parseMaxAge_def)

lemma chooseMaxAge_eq:
  "chooseMaxAge env cc =
     (if js_gt (parseMaxAge (case cc of Some v \<Rightarrow> v | None \<Rightarrow> [])) (Finite (- 1))
      then parseMaxAge (case cc of Some v \<Rightarrow> v | None \<Rightarrow> [])
      else defaultMaxAgeInSeconds env)"
  by (simp add: chooseMaxAge_def parseMaxAge_empty Let_def split: option.splits)

lemma split_on_nonempty: "split_on sep s \<noteq> []"
  by (induction s) (auto split: list.splits)

lemma classify_Inr:
  "classify env query doc = Inr (priv, content, isMut) \<longleftrightarrow>
     (\<exists>schema. latest env = Inr schema
        \<and> (case schema of
              Some sch \<Rightarrow> hasIntersectedTypes env sch doc (privateTypes env) = Inr priv
            | None \<Rightarrow> \<not> priv))
     \<and> normalizeDocument env query = Inr content
     \<and> isMutation env doc = Inr isMut"
  using split_on_nonempty [of "CHR '',''" "PRIVATE_TYPES env"]
  by (auto simp: classify_def privateTypes_def split: sum.splits option.splits)

lemma classification_Inr:
  "classification env req = Inr classified \<longleftrightarrow>
     (\<exists>query doc. originalBody_query req = Inr query \<and> truthy query
        \<and> parse env query = Inr doc \<and> classify env query doc = Inr classified)"
  by (auto simp: classification_def split: sum.splits if_splits)

lemma classify_throws:
  "classify env query doc = Inl error \<longleftrightarrow>
     latest env = Inl error
     \<or> (\<exists>sch. latest env = Inr (Some sch) \<and> privateTypes env \<noteq> []
              \<and> hasIntersectedTypes env sch doc (privateTypes env) = Inl error)
     \<or> ((\<exists>schema. latest env = Inr schema
              \<and> (\<forall>sch. schema = Some sch \<and> privateTypes env \<noteq> []
                    \<longrightarrow> (\<exists>b. hasIntersectedTypes env sch doc (privateTypes env) = Inr b)))
         \<and> (normalizeDocument env query = Inl error
             \<or> (\<exists>c. normalizeDocument env query = Inr c) \<and> isMutation env doc = Inl error))"
  by (auto simp: classify_def split: sum.splits option.splits if_splits)

subsection \<open>The example environments\<close>

lemma example_classification:
  "classification example_env (example_request q a) =
     (if q = [] then Inl (Inr (send 400 (ErrorMessage ''Request has no \"query\" field.'') Map.empty))
      else if q = ''{'' then Inl (Inl (Error ''Syntax Error''))
      else Inr (str_includes q ''me'', q, prefix ''mutation'' q))"
  by (simp add: classification_def classify_def example_env_def example_request_def privateTypes_def)

lemma example_no_store_classification:
  "classification example_no_store_env (example_request ''{ me }'' a) = Inr (True, ''{ me }'', False)"
  by (simp add: classification_def classify_def example_no_store_env_def example_env_def
      example_request_def privateTypes_def)


subsection \<open>Cacheability decision and key derivation\<close>

text \<open>
  Claim C1. A request is classified, the lookup of a request that is not a mutation
  misses, and the origin answers with JSON that decodes. Then the handler calls
  \<^verbatim>\<open>save\<close> if and only if the request is not a mutation and either
  \<open>isResponseCachable\<close> holds of the origin's response or the operation touches a
  private type: a private operation is stored whatever the origin's
  \<^verbatim>\<open>Cache-Control\<close> says, a mutation never. What is saved, under the derived key,
  is the origin's result.
\<close>

theorem stored_iff_cacheable:
  assumes cls: "classification env req = Inr (hasPrivateTypes, content, isMutationRequest)"
    and miss: "isMutationRequest = False \<longrightarrow>
       (\<exists>meta. find_cache env (derivedKey env req hasPrivateTypes content False) = Inr (None, meta))"
    and orig: "fetch env = Inr response"
    and json: "is_json response"
    and dec: "body response = Inr originResult"
  shows "(filter is_save (fst (graphql env req)) \<noteq> []
            \<longleftrightarrow> isMutationRequest = False \<and> (isResponseCachable response \<or> hasPrivateTypes))
       \<and> (\<forall>k e t. Save k e t \<in> set (fst (graphql env req)) \<longrightarrow>
             k = derivedKey env req hasPrivateTypes content isMutationRequest
             \<and> cached_body e = stringify env originResult)"
proof (cases isMutationRequest)
  case True
  have "graphql env req = refresh env [] False True"
    using cls True by (simp add: graphql_classified serve_mutation)
  then show ?thesis
    using True by (simp add: refresh_json [OF orig json dec])
next
  case False
  with miss obtain meta
    where "find_cache env (derivedKey env req hasPrivateTypes content False) = Inr (None, meta)"
    by blast
  moreover from cls False
  have "classification env req = Inr (hasPrivateTypes, content, False)" by simp
  ultimately have g: "fst (graphql env req) =
      [Hash (hashInput req hasPrivateTypes content),
       Find (derivedKey env req hasPrivateTypes content False)]
      @ fst (refresh env (derivedKey env req hasPrivateTypes content False) hasPrivateTypes False)"
    using miss_trace [of env req hasPrivateTypes content meta] by simp
  show ?thesis
    unfolding g using False
    by (auto simp: refresh_json [OF orig json dec] Let_def split: sum.splits)
qed

theorem stored_iff_cacheable_witness:
  \<open>classification example_no_store_env (example_request ''{ me }'' (Some ''Bearer a''))
     = Inr (True, ''{ me }'', False)
   \<and> \<not> isResponseCachable
         \<lparr>status = 200,
          headers = [Headers_contentType \<mapsto> ''application/json; charset=utf-8'',
                     Headers_cacheControl \<mapsto> ''no-store''],
          body = Inr ''{"data":{"me":1}}'' :: js_error + string\<rparr>
   \<and> filter is_save (fst (graphql example_no_store_env (example_request ''{ me }'' (Some ''Bearer a''))))
       \<noteq> []\<close>
proof -
  let ?response = \<open>\<lparr>status = 200,
          headers = [Headers_contentType \<mapsto> ''application/json; charset=utf-8'',
                     Headers_cacheControl \<mapsto> ''no-store''],
          body = Inr ''{"data":{"me":1}}'' :: js_error + string\<rparr>\<close>
  have f: "fetch example_no_store_env = Inr ?response"
    by (simp add: example_no_store_env_def)
  have m: "False = False \<longrightarrow> (\<exists>meta. find_cache example_no_store_env
        (derivedKey example_no_store_env (example_request ''{ me }'' (Some ''Bearer a'')) True ''{ me }'' False)
      = Inr (None, meta))"
    by (simp add: example_no_store_env_def example_env_def)
  have j: "is_json ?response"
    by (simp add: is_json_def)
  have d: \<open>body ?response = Inr ''{"data":{"me":1}}''\<close>
    by simp
  have n: "\<not> isResponseCachable ?response"
    by (simp add: isResponseCachable_def get_or_empty_def to_lower_def)
  from stored_iff_cacheable [OF example_no_store_classification m f j d]
  show ?thesis
    using n example_no_store_classification by simp
qed

text \<open>
  Claim C2. A classified request has passed its query to \<open>normalizeDocument\<close>, whose
  result is the normalized text, and its parsed document to \<open>isMutation\<close>; it
  touches a private type exactly when a schema is there and \<open>hasIntersectedTypes\<close>
  says so. When it is not a mutation, the handler computes one digest and looks it up:
  of the value of the \<^verbatim>\<open>authorization\<close> header followed by the normalized text when
  a private type is touched, of the normalized text alone otherwise, and the store is
  given no other key. An absent header counts as the empty token and the key is
  derived all the same. For a mutation no digest is computed and the store is given no
  key.
\<close>

theorem signature_derivation:
  assumes "classification env req = Inr (hasPrivateTypes, content, isMutationRequest)"
  shows "(\<exists>query doc. originalBody_query req = Inr query
            \<and> parse env query = Inr doc
            \<and> normalizeDocument env query = Inr content
            \<and> isMutation env doc = Inr isMutationRequest
            \<and> (hasPrivateTypes \<longleftrightarrow>
                 (\<exists>sch. latest env = Inr (Some sch)
                    \<and> hasIntersectedTypes env sch doc (privateTypes env) = Inr True)))
       \<and> (isMutationRequest = False \<and> hasPrivateTypes \<longrightarrow>
             (\<forall>token. authorization req = Some token \<longrightarrow>
                take 2 (fst (graphql env req))
                  = [Hash (token @ content), Find (SHA256 env (token @ content))]
                \<and> set (store_keys (fst (graphql env req))) = {SHA256 env (token @ content)}
                \<and> derivedKey env req hasPrivateTypes content isMutationRequest
                    = SHA256 env (token @ content))
             \<and> (authorization req = None \<longrightarrow>
                take 2 (fst (graphql env req)) = [Hash content, Find (SHA256 env content)]
                \<and> set (store_keys (fst (graphql env req))) = {SHA256 env content}
                \<and> derivedKey env req hasPrivateTypes content isMutationRequest
                    = SHA256 env content))
       \<and> (isMutationRequest = False \<and> \<not> hasPrivateTypes \<longrightarrow>
             take 2 (fst (graphql env req)) = [Hash content, Find (SHA256 env content)]
             \<and> set (store_keys (fst (graphql env req))) = {SHA256 env content}
             \<and> derivedKey env req hasPrivateTypes content isMutationRequest = SHA256 env content)
       \<and> (isMutationRequest \<longrightarrow>
             filter is_hash (fst (graphql env req)) = []
             \<and> store_keys (fst (graphql env req)) = []
             \<and> derivedKey env req hasPrivateTypes content isMutationRequest = [])"
proof -
  from assms obtain query doc where q: "originalBody_query req = Inr query"
    and p: "parse env query = Inr doc"
    and c: "classify env query doc = Inr (hasPrivateTypes, content, isMutationRequest)"
    unfolding classification_Inr by blast
  from c obtain schema where s: "latest env = Inr schema"
    and i: "case schema of
              Some sch \<Rightarrow> hasIntersectedTypes env sch doc (privateTypes env) = Inr hasPrivateTypes
            | None \<Rightarrow> \<not> hasPrivateTypes"
    and n: "normalizeDocument env query = Inr content"
    and m: "isMutation env doc = Inr isMutationRequest"
    unfolding classify_Inr by blast
  have "hasPrivateTypes \<longleftrightarrow>
      (\<exists>sch. latest env = Inr (Some sch)
         \<and> hasIntersectedTypes env sch doc (privateTypes env) = Inr True)"
    using s i by (cases schema) auto
  with q p n m have 1: "\<exists>query doc. originalBody_query req = Inr query
            \<and> parse env query = Inr doc
            \<and> normalizeDocument env query = Inr content
            \<and> isMutation env doc = Inr isMutationRequest
            \<and> (hasPrivateTypes \<longleftrightarrow>
                 (\<exists>sch. latest env = Inr (Some sch)
                    \<and> hasIntersectedTypes env sch doc (privateTypes env) = Inr True))"
    by blast
  show ?thesis
  proof (cases isMutationRequest)
    case True
    have "graphql env req = refresh env [] False True"
      using assms True by (simp add: graphql_classified serve_mutation)
    with 1 show ?thesis
      using True by (simp add: derivedKey_cases refresh_uncacheable_trace)
  next
    case False
    with assms have "classification env req = Inr (hasPrivateTypes, content, False)"
      by simp
    from query_trace_shape [OF this] 1 show ?thesis
      using False by (simp add: derivedKey_cases authHeader_def hashInput_def)
  qed
qed

lemma example_normalizing_classification:
  "classification example_normalizing_env (example_request ''{  me  }'' a)
     = Inr (True, ''{me}'', False)"
  "classification example_normalizing_env (example_request ''{ posts }'' a)
     = Inr (False, ''{posts}'', False)"
  "classification example_normalizing_env (example_request ''mutation { like }'' a)
     = Inr (False, ''mutation{like}'', True)"
  by (simp_all add: classification_def classify_def example_normalizing_env_def example_env_def
      example_request_def privateTypes_def)

theorem signature_derivation_witness:
  "classification example_normalizing_env (example_request ''{  me  }'' (Some ''Bearer a''))
     = Inr (True, ''{me}'', False)
   \<and> normalizeDocument example_normalizing_env (JStr ''{  me  }'') = Inr ''{me}''
   \<and> take 2 (fst (graphql example_normalizing_env (example_request ''{  me  }'' (Some ''Bearer a''))))
       = [Hash ''Bearer a{me}'', Find ''sha:Bearer a{me}'']
   \<and> set (store_keys (fst (graphql example_normalizing_env
                              (example_request ''{  me  }'' (Some ''Bearer a'')))))
       = {''sha:Bearer a{me}''}
   \<and> take 2 (fst (graphql example_normalizing_env (example_request ''{  me  }'' None)))
       = [Hash ''{me}'', Find ''sha:{me}'']
   \<and> take 2 (fst (graphql example_normalizing_env (example_request ''{ posts }'' (Some ''Bearer a''))))
       = [Hash ''{posts}'', Find ''sha:{posts}'']
   \<and> filter is_hash (fst (graphql example_normalizing_env
                              (example_request ''mutation { like }'' (Some ''Bearer a'')))) = []
   \<and> store_keys (fst (graphql example_normalizing_env
                         (example_request ''mutation { like }'' (Some ''Bearer a'')))) = []"
proof -
  have s: "SHA256 example_normalizing_env = (\<lambda>s. ''sha:'' @ s)"
    by (simp add: example_normalizing_env_def example_env_def)
  have n: "normalizeDocument example_normalizing_env (JStr ''{  me  }'') = Inr ''{me}''"
    by (simp add: example_normalizing_env_def)
  have a: "authorization (example_request q (Some ''Bearer a'')) = Some ''Bearer a''"
    and b: "authorization (example_request q None) = None" for q
    by (simp_all add: example_request_def)
  from signature_derivation [OF example_normalizing_classification(1) [of "Some ''Bearer a''"]]
       signature_derivation [OF example_normalizing_classification(1) [of None]]
       signature_derivation [OF example_normalizing_classification(2) [of "Some ''Bearer a''"]]
       signature_derivation [OF example_normalizing_classification(3) [of "Some ''Bearer a''"]]
  show ?thesis
    using example_normalizing_classification(1) [of "Some ''Bearer a''"] n
    by (simp add: s a b)
qed

text \<open>
  Claim C3. Two requests with the same normalized query, both touching a private
  type, with different identity tokens: if the digest tells the two concatenated
  inputs apart, the two signatures differ, and no key that one request reads or
  writes the store with is a key of the other.
\<close>

theorem private_keys_disjoint:
  assumes "classification env1 req1 = Inr (True, content, False)"
    and "classification env2 req2 = Inr (True, content, False)"
    and "SHA256 env2 = SHA256 env1"
    and "authHeader req1 \<noteq> authHeader req2"
    and "inj_on (SHA256 env1) {authHeader req1 @ content, authHeader req2 @ content}"
  shows "derivedKey env1 req1 True content False \<noteq> derivedKey env2 req2 True content False
       \<and> set (store_keys (fst (graphql env1 req1))) \<inter> set (store_keys (fst (graphql env2 req2))) = {}"
proof -
  have "authHeader req1 @ content \<noteq> authHeader req2 @ content"
    using assms(4) by simp
  with assms(5) have "SHA256 env1 (authHeader req1 @ content) \<noteq> SHA256 env1 (authHeader req2 @ content)"
    by (auto simp: inj_on_def)
  then have k: "derivedKey env1 req1 True content False \<noteq> derivedKey env2 req2 True content False"
    using assms(3) by (simp add: derivedKey_cases hashInput_def)
  with query_trace_shape [OF assms(1)] query_trace_shape [OF assms(2)] show ?thesis
    by simp
qed

theorem private_keys_disjoint_witness:
  "classification example_env (example_request ''{ me }'' (Some ''Bearer a'')) = Inr (True, ''{ me }'', False)
   \<and> classification example_env (example_request ''{ me }'' (Some ''Bearer b'')) = Inr (True, ''{ me }'', False)
   \<and> authHeader (example_request ''{ me }'' (Some ''Bearer a''))
       \<noteq> authHeader (example_request ''{ me }'' (Some ''Bearer b''))
   \<and> set (store_keys (fst (graphql example_env (example_request ''{ me }'' (Some ''Bearer a'')))))
       \<inter> set (store_keys (fst (graphql example_env (example_request ''{ me }'' (Some ''Bearer b'')))))
       = {}"
proof -
  have c1: "classification example_env (example_request ''{ me }'' (Some ''Bearer a'')) = Inr (True, ''{ me }'', False)"
    by (simp add: example_classification)
  have c2: "classification example_env (example_request ''{ me }'' (Some ''Bearer b'')) = Inr (True, ''{ me }'', False)"
    by (simp add: example_classification)
  have a: "authHeader (example_request ''{ me }'' (Some ''Bearer a''))
       \<noteq> authHeader (example_request ''{ me }'' (Some ''Bearer b''))"
    by (simp add: authHeader_def example_request_def)
  have i: "inj_on (SHA256 example_env)
       {authHeader (example_request ''{ me }'' (Some ''Bearer a'')) @ ''{ me }'',
        authHeader (example_request ''{ me }'' (Some ''Bearer b'')) @ ''{ me }''}"
    by (simp add: inj_on_def example_env_def)
  from private_keys_disjoint [OF c1 c2 refl a i] show ?thesis
    using c1 c2 a by simp
qed

subsection \<open>Mutations\<close>

text \<open>
  Claim C4. For a request classified as a mutation the handler calls neither
  \<^verbatim>\<open>find\<close> nor \<^verbatim>\<open>save\<close> (its only call is the one to the origin), and a response it
  returns carries \<^verbatim>\<open>gcdn-cache: PASS\<close>; it returns one whenever the origin answers
  and a JSON answer decodes. The environment is arbitrary, so this holds for every
  state of the store, at each repetition of the request.
\<close>

theorem mutation_bypasses_cache:
  assumes "classification env req = Inr (hasPrivateTypes, content, True)"
  shows "fst (graphql env req) = [Fetch]
       \<and> filter is_find (fst (graphql env req)) = []
       \<and> filter is_save (fst (graphql env req)) = []
       \<and> (\<forall>r. snd (graphql env req) = Inr r \<longrightarrow> headers r Headers_gcdnCache = Some CacheHitHeader_PASS)
       \<and> (\<forall>response. fetch env = Inr response \<and> (is_json response \<longrightarrow> (\<exists>j. body response = Inr j))
            \<longrightarrow> (\<exists>r. snd (graphql env req) = Inr r))"
proof -
  have g: "graphql env req = refresh env [] False True"
    using assms by (simp add: graphql_classified serve_mutation)
  have t: "fst (graphql env req) = [Fetch]"
    unfolding g by (rule refresh_uncacheable_trace)
  show ?thesis
    unfolding t unfolding g
    using refresh_uncacheable_header [of env "[]"] refresh_uncacheable_returns [of env _ "[]"]
    by auto
qed

theorem mutation_bypasses_cache_witness:
  "classification example_env (example_request ''mutation { like }'' (Some ''Bearer a''))
     = Inr (False, ''mutation { like }'', True)
   \<and> fst (graphql example_env (example_request ''mutation { like }'' (Some ''Bearer a''))) = [Fetch]
   \<and> (\<exists>r. snd (graphql example_env (example_request ''mutation { like }'' (Some ''Bearer a''))) = Inr r
          \<and> headers r Headers_gcdnCache = Some CacheHitHeader_PASS)"
proof -
  have c: "classification example_env (example_request ''mutation { like }'' (Some ''Bearer a''))
     = Inr (False, ''mutation { like }'', True)"
    by (simp add: example_classification)
  have f: "fetch example_env = Inr \<lparr>status = 200,
                   headers = [Headers_contentType \<mapsto> ''application/json'',
                              Headers_cacheControl \<mapsto> ''max-age=60''],
                   body = Inr ''{\"data\":{}}''\<rparr>"
    by (simp add: example_env_def)
  show ?thesis
    using c f mutation_bypasses_cache [OF c] by (auto simp: is_json_def)
qed

subsection \<open>Age and TTL\<close>



text \<open>
  Claim C7. On a miss whose response is stored, one Number \<open>maxAge\<close> is chosen: what
  \<open>parseMaxAge\<close> finds in the origin's \<^verbatim>\<open>Cache-Control\<close> when that is greater
  than \<open>- 1\<close>, the default TTL otherwise. This one value is the TTL passed to
  \<^verbatim>\<open>save\<close>, and its text is both the \<^verbatim>\<open>max-age\<close> and the
  \<^verbatim>\<open>stale-while-revalidate\<close> of the \<^verbatim>\<open>Cache-Control\<close> header, in the stored
  entry and in the response returned. For a value from 0 to \<open>2^53\<close> that text is its
  decimal numeral, which \<open>parseMaxAge\<close> reads back.
\<close>

theorem max_age_single_value:
  assumes cls: "classification env req = Inr (hasPrivateTypes, content, False)"
    and miss: "find_cache env (derivedKey env req hasPrivateTypes content False) = Inr (None, meta)"
    and orig: "fetch env = Inr response"
    and json: "is_json response"
    and dec: "body response = Inr originResult"
    and cacheable: "isResponseCachable response \<or> hasPrivateTypes"
    and maxAge: "maxAge = chooseMaxAge env (headers response Headers_cacheControl)"
  shows "maxAge =
           (if js_gt (parseMaxAge (get_or_empty (headers response) Headers_cacheControl))
                 (Finite (- 1))
            then parseMaxAge (get_or_empty (headers response) Headers_cacheControl)
            else defaultMaxAgeInSeconds env)
       \<and> (\<exists>entry. filter is_save (fst (graphql env req)) =
                     [Save (derivedKey env req hasPrivateTypes content False) entry maxAge]
                 \<and> cached_headers entry Headers_cacheControl = Some (directive hasPrivateTypes maxAge))
       \<and> (\<forall>r. snd (graphql env req) = Inr r \<longrightarrow>
              headers r Headers_cacheControl = Some (directive hasPrivateTypes maxAge))
       \<and> directive hasPrivateTypes maxAge =
           (if hasPrivateTypes then ''private'' else ''public'')
           @ '', max-age='' @ Number_toString maxAge
           @ '', stale-while-revalidate='' @ Number_toString maxAge
       \<and> (\<forall>n. maxAge = Finite n \<and> 0 \<le> n \<and> n \<le> 2 ^ 53 \<longrightarrow>
              Number_toString maxAge = digits_of_nat (nat n)
              \<and> parseMaxAge (directive hasPrivateTypes maxAge) = maxAge)"
proof -
  let ?k = "derivedKey env req hasPrivateTypes content False"
  have c: "(False = False \<and> isResponseCachable response) \<or> hasPrivateTypes"
    using cacheable by simp
  have 1: "maxAge =
           (if js_gt (parseMaxAge (get_or_empty (headers response) Headers_cacheControl))
                 (Finite (- 1))
            then parseMaxAge (get_or_empty (headers response) Headers_cacheControl)
            else defaultMaxAgeInSeconds env)"
    unfolding maxAge chooseMaxAge_eq get_or_empty_def ..
  have 2: "\<exists>entry. filter is_save (fst (graphql env req)) = [Save ?k entry maxAge]
                 \<and> cached_headers entry Headers_cacheControl = Some (directive hasPrivateTypes maxAge)"
    unfolding miss_trace [OF cls miss] using c
    by (simp add: refresh_json_saves [OF orig json dec] maxAge)
  have 3: "\<forall>r. snd (graphql env req) = Inr r \<longrightarrow>
              headers r Headers_cacheControl = Some (directive hasPrivateTypes maxAge)"
    unfolding miss_trace [OF cls miss] using c
    by (auto simp: refresh_json [OF orig json dec] maxAge Let_def split: sum.splits)
  have 4: "\<forall>n. maxAge = Finite n \<and> 0 \<le> n \<and> n \<le> 2 ^ 53 \<longrightarrow>
              Number_toString maxAge = digits_of_nat (nat n)
              \<and> parseMaxAge (directive hasPrivateTypes maxAge) = maxAge"
  proof (intro allI impI)
    fix n
    assume a: "maxAge = Finite n \<and> 0 \<le> n \<and> n \<le> 2 ^ 53"
    then have n: "0 \<le> n" "n \<le> 2 ^ 53"
      by blast+
    have "Number_toString (Finite n) = digits_of_nat (nat n)"
      using n by (rule Number_toString_small)
    moreover have "parseMaxAge (directive hasPrivateTypes (Finite n)) = Finite n"
      unfolding directive_def
      by (rule parseMaxAge_directive [OF n]) simp
    ultimately show "Number_toString maxAge = digits_of_nat (nat n)
        \<and> parseMaxAge (directive hasPrivateTypes maxAge) = maxAge"
      using a by simp
  qed
  have 5: "directive hasPrivateTypes maxAge =
           (if hasPrivateTypes then ''private'' else ''public'')
           @ '', max-age='' @ Number_toString maxAge
           @ '', stale-while-revalidate='' @ Number_toString maxAge"
    by (simp add: directive_def)
  from 1 2 3 4 5 show ?thesis by (intro conjI)
qed

theorem max_age_single_value_witness:
  "classification example_env (example_request ''{ posts }'' None) = Inr (False, ''{ posts }'', False)
   \<and> chooseMaxAge example_env (Some ''max-age=60'') = Finite 60
   \<and> (\<exists>entry. filter is_save (fst (graphql example_env (example_request ''{ posts }'' None)))
                  = [Save ''sha:{ posts }'' entry (Finite 60)]
              \<and> cached_headers entry Headers_cacheControl
                  = Some ''public, max-age=60, stale-while-revalidate=60'')
   \<and> (\<exists>r. snd (graphql example_env (example_request ''{ posts }'' None)) = Inr r
          \<and> headers r Headers_cacheControl = Some ''public, max-age=60, stale-while-revalidate=60'')
   \<and> parseMaxAge ''public, max-age=60, stale-while-revalidate=60'' = Finite 60"
proof -
  let ?req = "example_request ''{ posts }'' None"
  let ?response = \<open>\<lparr>status = 200,
                   headers = [Headers_contentType \<mapsto> ''application/json'',
                              Headers_cacheControl \<mapsto> ''max-age=60''],
                   body = Inr ''{"data":{}}'' :: js_error + string\<rparr>\<close>
  have c: "classification example_env ?req = Inr (False, ''{ posts }'', False)"
    by (simp add: example_classification)
  have k: "derivedKey example_env ?req False ''{ posts }'' False = ''sha:{ posts }''"
    by (simp add: derivedKey_def querySignature_def example_env_def)
  have m: "find_cache example_env (derivedKey example_env ?req False ''{ posts }'' False)
       = Inr (None, None)"
    by (simp add: example_env_def)
  have f: "fetch example_env = Inr ?response"
    by (simp add: example_env_def)
  have j: "is_json ?response"
    by (simp add: is_json_def)
  have d: \<open>body ?response = Inr ''{"data":{}}''\<close>
    by simp
  have i: "isResponseCachable ?response \<or> False"
    by (simp add: isResponseCachable_def get_or_empty_def to_lower_def)
  have a: "chooseMaxAge example_env (Some ''max-age=60'') = Finite 60"
    by (simp add: chooseMaxAge_def parseMaxAge_def number_eval)
  have a': "Finite 60 = chooseMaxAge example_env (headers ?response Headers_cacheControl)"
    using a by simp
  have sv: "save example_env = (\<lambda>k e t. Inr True)"
    by (simp add: example_env_def)
  have s: "\<exists>r. snd (graphql example_env ?req) = Inr r"
    unfolding miss_trace [OF c m] refresh_json [OF f j d]
    using i by (simp add: Let_def sv)
  have dv: "directive False (Finite 60) = ''public, max-age=60, stale-while-revalidate=60''"
    by (simp add: directive_def number_eval)
  note single = max_age_single_value [OF c m f j d i a']
  from single
  have e: "\<exists>entry. filter is_save (fst (graphql example_env ?req))
                  = [Save ''sha:{ posts }'' entry (Finite 60)]
              \<and> cached_headers entry Headers_cacheControl
                  = Some ''public, max-age=60, stale-while-revalidate=60''"
    unfolding k dv by blast
  from single
  have "\<forall>r. snd (graphql example_env ?req) = Inr r \<longrightarrow>
      headers r Headers_cacheControl = Some ''public, max-age=60, stale-while-revalidate=60''"
    unfolding k dv by blast
  with s
  have r: "\<exists>r. snd (graphql example_env ?req) = Inr r
          \<and> headers r Headers_cacheControl = Some ''public, max-age=60, stale-while-revalidate=60''"
    by blast
  from single
  have "\<forall>n. Finite 60 = Finite n \<and> 0 \<le> n \<and> n \<le> 2 ^ 53 \<longrightarrow>
      parseMaxAge ''public, max-age=60, stale-while-revalidate=60'' = Finite 60"
    unfolding k dv by blast
  then have p: "parseMaxAge ''public, max-age=60, stale-while-revalidate=60'' = Finite 60"
    by simp
  from c a e r p show ?thesis
    by (intro conjI)
qed

subsection \<open>Error responses\<close>

text \<open>
  Claim C5, amended. A request whose body has no (truthy) \<^verbatim>\<open>query\<close> field is
  answered with status 400 and the message \<^verbatim>\<open>Request has no "query" field.\<close>, without
  a \<^verbatim>\<open>gcdn-cache\<close> header; a request whose classification throws inside the
  \<^verbatim>\<open>try\<close> block is answered with status 400 and \<^verbatim>\<open>gcdn-cache: ERROR\<close>.
\<close>

theorem request_error_responses:
  \<open>(originalBody_query req = Inr query \<and> \<not> truthy query \<longrightarrow>
      (\<exists>r. graphql env req = ([], Inr r)
          \<and> status r = 400
          \<and> body r = ErrorMessage ''Request has no "query" field.''
          \<and> headers r Headers_gcdnCache = None))
   \<and> (originalBody_query req = Inr query \<and> truthy query
        \<and> parse env query = Inr queryDocumentNode
        \<and> classify env query queryDocumentNode = Inl error \<longrightarrow>
      (\<exists>r. graphql env req = ([], Inr r)
          \<and> status r = 400
          \<and> headers r Headers_gcdnCache = Some CacheHitHeader_ERROR))\<close>
  by (simp add: graphql_def classification_def send_def)

theorem request_error_responses_witness:
  \<open>\<not> truthy JUndefined
   \<and> (\<exists>r. graphql example_env \<lparr>originalBody_query = Inr JUndefined, authorization = None\<rparr>
            = ([], Inr r)
          \<and> status r = 400
          \<and> body r = ErrorMessage ''Request has no "query" field.''
          \<and> headers r Headers_gcdnCache = None)
   \<and> classify example_failing_env (JStr ''{ posts }'') ''{ posts }'' = Inl (Error ''schema unavailable'')
   \<and> (\<exists>r. graphql example_failing_env (example_request ''{ posts }'' None) = ([], Inr r)
          \<and> status r = 400
          \<and> headers r Headers_gcdnCache = Some CacheHitHeader_ERROR)\<close>
proof -
  have q: "originalBody_query (example_request ''{ posts }'' None) = Inr (JStr ''{ posts }'')"
    by (simp add: example_request_def)
  have p: "parse example_failing_env (JStr ''{ posts }'') = Inr ''{ posts }''"
    by (simp add: example_failing_env_def example_env_def)
  have c: "classify example_failing_env (JStr ''{ posts }'') ''{ posts }''
      = Inl (Error ''schema unavailable'')"
    by (simp add: classify_def example_failing_env_def example_env_def)
  from request_error_responses
         [of "\<lparr>originalBody_query = Inr JUndefined, authorization = None\<rparr>" JUndefined example_env]
       request_error_responses
         [of "example_request ''{ posts }'' None" "JStr ''{ posts }''" example_failing_env
             "''{ posts }''" "Error ''schema unavailable''"]
  show ?thesis
    using q p c by simp
qed

text \<open>
  The statement of C5 as it is written fails on both of its cases. A body without
  \<^verbatim>\<open>query\<close> is answered by \<^verbatim>\<open>res.send(400, { error })\<close> with no headers, so the
  response has no \<^verbatim>\<open>gcdn-cache\<close> header. And \<^verbatim>\<open>parse\<close> is called before the
  \<^verbatim>\<open>try\<close> block, so where the parser throws on malformed text the error leaves the
  handler and no response is returned.
\<close>

theorem missing_query_counterexample:
  \<open>graphql example_env \<lparr>originalBody_query = Inr JUndefined, authorization = None\<rparr>
     = ([], Inr (send 400 (ErrorMessage ''Request has no "query" field.'') Map.empty))
   \<and> headers (send 400 (ErrorMessage ''Request has no "query" field.'') Map.empty) Headers_gcdnCache
       \<noteq> Some CacheHitHeader_ERROR
   \<and> parse example_env (JStr ''{'') = Inl (Error ''Syntax Error'')
   \<and> graphql example_env (example_request ''{'' None) = ([], Inl (Error ''Syntax Error''))\<close>
  by (simp add: graphql_def classification_def send_def example_env_def example_request_def)

text \<open>
  Claim C10. When the \<^verbatim>\<open>try\<close> block throws (schema retrieval, private-type
  intersection, normalization or mutation detection: see \<open>classify_throws\<close>), the
  handler answers 400 with the error, \<^verbatim>\<open>x-cache: HIT\<close> and
  \<^verbatim>\<open>gcdn-cache: ERROR\<close>, having made no call at all, so no lookup.
\<close>

theorem classification_error_reports_hit:
  assumes "originalBody_query req = Inr query" and "truthy query"
    and "parse env query = Inr queryDocumentNode"
    and "classify env query queryDocumentNode = Inl error"
  shows "\<exists>r. graphql env req = ([], Inr r)
           \<and> status r = 400
           \<and> body r = ThrownError error
           \<and> headers r Headers_xCache = Some CacheHitHeader_HIT
           \<and> headers r Headers_gcdnCache = Some CacheHitHeader_ERROR"
  using assms by (simp add: graphql_def classification_def send_def)

theorem classification_error_reports_hit_witness:
  "classify example_failing_env (JStr ''{ posts }'') ''{ posts }'' = Inl (Error ''schema unavailable'')
   \<and> (\<exists>r. graphql example_failing_env (example_request ''{ posts }'' None) = ([], Inr r)
          \<and> status r = 400
          \<and> headers r Headers_xCache = Some CacheHitHeader_HIT
          \<and> headers r Headers_gcdnCache = Some CacheHitHeader_ERROR)"
proof -
  have q: "originalBody_query (example_request ''{ posts }'' None) = Inr (JStr ''{ posts }'')"
    by (simp add: example_request_def)
  have t: "truthy (JStr ''{ posts }'')"
    by simp
  have p: "parse example_failing_env (JStr ''{ posts }'') = Inr ''{ posts }''"
    by (simp add: example_failing_env_def example_env_def)
  have c: "classify example_failing_env (JStr ''{ posts }'') ''{ posts }''
      = Inl (Error ''schema unavailable'')"
    by (simp add: classify_def example_failing_env_def example_env_def)
  from classification_error_reports_hit [OF q t p c] show ?thesis
    using c by blast
qed

end
